theory Spec2Isabelle
  imports Complex_Main "HOL-Library.Multiset"
begin

section \<open>Data model of \<^verbatim>\<open>bank.c\<close>\<close>

text \<open>
  The program keeps two singly linked lists and one global counter. A linked list is
  modelled by the HOL list of its nodes' data, head first; the \<^verbatim>\<open>next\<close> pointers are
  the list structure. C \<^verbatim>\<open>int\<close> values are HOL integers; the only arithmetic the
  program does on them is the post-increment of the counter, whose overflow (undefined
  behaviour in C) is an explicit result of the model. Names are C strings compared with
  \<^verbatim>\<open>strcmp\<close>, modelled as HOL strings compared with equality.
\<close>

datatype AccountType = SAVINGS | CURRENT

subsection \<open>The balance type\<close>

text \<open>
  \<^verbatim>\<open>float\<close> is the IEEE 754 binary32 format, evaluated in its own precision with
  rounding to nearest, ties to even. A value is a rational (one of the representable
  ones), an infinity or a NaN; the sign of zero and the payload of a NaN are not
  observable by any comparison the program makes and are left out. The program adds,
  subtracts and compares balances, and converts the integer literals 100 and 0 for the
  comparisons; these four operations are \<open>fadd\<close>, \<open>fsub\<close>, \<open>flt\<close> and
  \<open>float_of_int\<close>.
\<close>

datatype float = Finite rat | PlusInfinity | MinusInfinity | NaN

function ilog2 :: "int \<Rightarrow> int" where
  "ilog2 n = (if n < 2 then 0 else 1 + ilog2 (n div 2))"
  by pat_completeness auto
termination
  by (relation "measure nat") auto

declare ilog2.simps [simp del]

definition float_exponent :: "rat \<Rightarrow> int" where
  \<comment> \<open>for \<open>0 < x\<close>: the \<open>e\<close> with \<open>2 ^ e \<le> x < 2 ^ (e + 1)\<close>\<close>
  "float_exponent x =
     (let (n, d) = quotient_of x in
      if d \<le> n then ilog2 (n div d)
      else (let k = ilog2 (d div n) in
            if n * 2 ^ nat k = d then - k else - k - 1))"

definition round_nearest_even :: "rat \<Rightarrow> int" where
  "round_nearest_even x =
     (let f = \<lfloor>x\<rfloor>; d = x - of_int f in
      if d < 1 / 2 then f
      else if 1 / 2 < d then f + 1
      else if even f then f else f + 1)"

definition float_round :: "rat \<Rightarrow> float" where
  "float_round x =
     (if x = 0 then Finite 0
      else
        (let e = max (float_exponent \<bar>x\<bar>) (- 126);
             ulp = 2 powi (e - 23);
             r = of_int (round_nearest_even (\<bar>x\<bar> / ulp)) * ulp
         in if 2 ^ 128 \<le> r then (if 0 < x then PlusInfinity else MinusInfinity)
            else Finite (if 0 < x then r else - r)))"

fun fadd :: "float \<Rightarrow> float \<Rightarrow> float" where
  "fadd NaN y = NaN"
| "fadd x NaN = NaN"
| "fadd PlusInfinity MinusInfinity = NaN"
| "fadd MinusInfinity PlusInfinity = NaN"
| "fadd PlusInfinity y = PlusInfinity"
| "fadd x PlusInfinity = PlusInfinity"
| "fadd MinusInfinity y = MinusInfinity"
| "fadd x MinusInfinity = MinusInfinity"
| "fadd (Finite a) (Finite b) = float_round (a + b)"

fun fneg :: "float \<Rightarrow> float" where
  "fneg (Finite a) = Finite (- a)"
| "fneg PlusInfinity = MinusInfinity"
| "fneg MinusInfinity = PlusInfinity"
| "fneg NaN = NaN"

definition fsub :: "float \<Rightarrow> float \<Rightarrow> float" where
  "fsub x y = fadd x (fneg y)"

fun flt :: "float \<Rightarrow> float \<Rightarrow> bool" where
  "flt NaN y = False"
| "flt x NaN = False"
| "flt (Finite a) (Finite b) = (a < b)"
| "flt x MinusInfinity = False"
| "flt MinusInfinity y = True"
| "flt PlusInfinity y = False"
| "flt x PlusInfinity = True"

definition float_of_int :: "int \<Rightarrow> float" where
  \<comment> \<open>the conversion C applies to the literals \<^verbatim>\<open>100\<close> and \<^verbatim>\<open>0\<close> in a comparison with a \<^verbatim>\<open>float\<close>\<close>
  "float_of_int n = float_round (of_int n)"

subsection \<open>Nodes and program state\<close>

record AccountNode =
  AccountNumber :: int
  Name :: string
  accountType :: AccountType
  Amount :: float

text \<open>
  A \<^verbatim>\<open>DeletedAccountNumNode\<close> holds only its \<^verbatim>\<open>AccountNum\<close>, so the list of
  deleted numbers is an \<open>int list\<close>.
\<close>

record bank_state =
  accountsHead :: "AccountNode list"
  deletedAccountNumbersHead :: "int list"
  globalNextAccountNumber :: int

definition initial_state :: bank_state where
  "initial_state =
     \<lparr>accountsHead = [], deletedAccountNumbersHead = [], globalNextAccountNumber = 100\<rparr>"

definition INT_MAX :: int where
  "INT_MAX = 2147483647"

text \<open>
  What the program prints, one constructor for each message, with the values it prints in
  it; the prompts and the banner are left out. A refusal is told by its message: a
  duplicate by \<open>DuplicateAccount\<close>; an account that is not there by
  \<open>DeleteAccountNotFound\<close> and \<open>TransactionAccountNotFound\<close>, or by
  \<open>NoAccountsToDelete\<close> and \<open>NoAccountsForTransactions\<close> when the list is empty; an
  insufficient balance by \<open>InsufficientSavings\<close> and \<open>InsufficientCurrent\<close>; a bad
  account type or transaction code by \<open>InvalidAccountType\<close> and
  \<open>InvalidTransactionCode\<close>.
\<close>

datatype message =
    NoAccountsToDisplay
  | DisplayHeader
  | DisplayRow int AccountType string float
  | DisplayFooter
  | LowBalanceHeader
  | LowBalanceRow int string float
  | NoLowBalanceFound
  | LowBalanceFooter
  | AccountNodeAllocationFailed
  | AccountNameAllocationFailed
  | DeletedNumNodeAllocationFailed
  | AccountCreated int string AccountType float
  | NoAccountsToDelete
  | AccountDeleted int
  | DeleteAccountNotFound string AccountType
  | NoAccountsForTransactions
  | DepositSuccessful int float
  | InsufficientSavings
  | InsufficientCurrent
  | WithdrawalSuccessful int float
  | InvalidTransactionCode
  | TransactionAccountNotFound int
  | InvalidAccountType string
  | DuplicateAccount string string
  | InvalidCommand string
  | Goodbye

section \<open>The list operations\<close>

subsection \<open>Selection sort\<close>

text \<open>
  \<^verbatim>\<open>sortDeletedAccountNumList\<close> and \<^verbatim>\<open>sortAccountListByNumber\<close> run the same two
  nested loops; they differ in the key they read from a node and in the data they swap.
  The loops are modelled once, over the nodes from \<^verbatim>\<open>current\<close> on: the nodes before
  \<^verbatim>\<open>current\<close> are never read or written again.

  The inner loop: \<^verbatim>\<open>minNode\<close> is a position (counted from \<^verbatim>\<open>current\<close>, which is 0)
  together with the node's data, \<^verbatim>\<open>runner\<close> is the position \<open>r\<close> and the nodes from
  there on.
\<close>

fun findMinNode :: "('a \<Rightarrow> int) \<Rightarrow> nat \<times> 'a \<Rightarrow> nat \<Rightarrow> 'a list \<Rightarrow> nat \<times> 'a" where
  "findMinNode key minNode r [] = minNode"
| "findMinNode key minNode r (runner # rest) =
     findMinNode key (if key runner < key (snd minNode) then (r, runner) else minNode)
       (Suc r) rest"

function selectionLoop :: "('a \<Rightarrow> int) \<Rightarrow> ('a \<Rightarrow> 'a \<Rightarrow> 'a \<times> 'a) \<Rightarrow> 'a list \<Rightarrow> 'a list" where
  "selectionLoop key swapData [] = []"
| "selectionLoop key swapData (current # rest) =
     (case findMinNode key (0, current) 1 rest of
        (m, minNode) \<Rightarrow>
          if m \<noteq> 0 then
            (case swapData current minNode of
               (current', minNode') \<Rightarrow>
                 current' # selectionLoop key swapData (rest[m - 1 := minNode']))
          else current # selectionLoop key swapData rest)"
  by pat_completeness auto
termination
  by (relation "measure (\<lambda>(key, swapData, l). length l)") auto

text \<open>The swap of the deleted-number list: the two \<^verbatim>\<open>AccountNum\<close> values.\<close>

definition swapAccountNum :: "int \<Rightarrow> int \<Rightarrow> int \<times> int" where
  "swapAccountNum current minNode =
     (let temp = current;
          current' = minNode;
          minNode' = temp
      in (current', minNode'))"

text \<open>
  The swap of the account list: the four data fields, one after the other, each through
  its own temporary.
\<close>

definition swapAccountData :: "AccountNode \<Rightarrow> AccountNode \<Rightarrow> AccountNode \<times> AccountNode" where
  "swapAccountData current minNode =
     (let tempAccountNumber = AccountNumber current;
          current1 = current\<lparr>AccountNumber := AccountNumber minNode\<rparr>;
          minNode1 = minNode\<lparr>AccountNumber := tempAccountNumber\<rparr>;
          tempName = Name current1;
          current2 = current1\<lparr>Name := Name minNode1\<rparr>;
          minNode2 = minNode1\<lparr>Name := tempName\<rparr>;
          tempAccountType = accountType current2;
          current3 = current2\<lparr>accountType := accountType minNode2\<rparr>;
          minNode3 = minNode2\<lparr>accountType := tempAccountType\<rparr>;
          tempAmount = Amount current3;
          current4 = current3\<lparr>Amount := Amount minNode3\<rparr>;
          minNode4 = minNode3\<lparr>Amount := tempAmount\<rparr>
      in (current4, minNode4))"

definition sortDeletedAccountNumList :: "int list \<Rightarrow> int list" where
  "sortDeletedAccountNumList list =
     (if list = [] \<or> tl list = [] then list
      else selectionLoop (\<lambda>n. n) swapAccountNum list)"

definition sortAccountListByNumber :: "AccountNode list \<Rightarrow> AccountNode list" where
  "sortAccountListByNumber list =
     (if list = [] \<or> tl list = [] then list
      else selectionLoop AccountNumber swapAccountData list)"

subsection \<open>The recycle list\<close>

text \<open>
  Every function that allocates takes the outcome of the allocation as an argument:
  \<open>malloc_ok\<close> says that \<^verbatim>\<open>malloc\<close> returns a node, \<open>strdup_ok\<close> that
  \<^verbatim>\<open>strdup\<close> returns a copy of the name.
\<close>

definition addDeletedAccountNum :: "bool \<Rightarrow> int list \<Rightarrow> int \<Rightarrow> int list \<times> message list" where
  "addDeletedAccountNum malloc_ok list accountNumToAdd =
     (if \<not> malloc_ok then (list, [DeletedNumNodeAllocationFailed])
      else if list = [] then ([accountNumToAdd], [])
      else (list @ [accountNumToAdd], []))"

subsection \<open>Creating and deleting accounts\<close>

datatype 'a c_result = Returns 'a | Undefined

text \<open>
  \<^verbatim>\<open>createAccount\<close> reads and writes the head of the recycle list through a pointer,
  returns the new head of the account list and post-increments the global counter; the
  model takes the three in a \<open>bank_state\<close> and returns them updated. Incrementing a
  counter that holds \<^verbatim>\<open>INT_MAX\<close> is undefined behaviour.
\<close>

definition createAccount ::
  "bool \<Rightarrow> bool \<Rightarrow> bank_state \<Rightarrow> AccountType \<Rightarrow> string \<Rightarrow> float
     \<Rightarrow> (bank_state \<times> message list) c_result" where
  "createAccount malloc_ok strdup_ok s accType name amount =
     (if \<not> malloc_ok then Returns (s, [AccountNodeAllocationFailed])
      else if \<not> strdup_ok then Returns (s, [AccountNameAllocationFailed])
      else
        (case deletedAccountNumbersHead s of
           recycled # remaining \<Rightarrow>
             (let new_node = \<lparr>AccountNumber = recycled, Name = name,
                               accountType = accType, Amount = amount\<rparr>
              in Returns
                   (s\<lparr>accountsHead := accountsHead s @ [new_node],
                      deletedAccountNumbersHead := remaining\<rparr>,
                    [AccountCreated recycled name accType amount]))
         | [] \<Rightarrow>
             if globalNextAccountNumber s = INT_MAX then Undefined
             else
               (let new_node = \<lparr>AccountNumber = globalNextAccountNumber s, Name = name,
                                 accountType = accType, Amount = amount\<rparr>
                in Returns
                     (s\<lparr>accountsHead := accountsHead s @ [new_node],
                        globalNextAccountNumber := globalNextAccountNumber s + 1\<rparr>,
                      [AccountCreated (globalNextAccountNumber s) name accType amount]))))"

text \<open>
  The search loop of \<^verbatim>\<open>deleteAccount\<close>, over the nodes from \<^verbatim>\<open>current\<close> on. The
  result is the nodes that remain, the value left in \<^verbatim>\<open>*deletedAccountNumber\<close>
  (initialised to \<open>-1\<close>) and the message.
\<close>

fun deleteAccount_loop ::
  "AccountNode list \<Rightarrow> AccountType \<Rightarrow> string \<Rightarrow> AccountNode list \<times> int \<times> message list" where
  "deleteAccount_loop [] accType name = ([], - 1, [DeleteAccountNotFound name accType])"
| "deleteAccount_loop (current # rest) accType name =
     (if Name current = name \<and> accountType current = accType
      then (rest, AccountNumber current, [AccountDeleted (AccountNumber current)])
      else (case deleteAccount_loop rest accType name of
              (rest', deletedAccountNumber, out) \<Rightarrow> (current # rest', deletedAccountNumber, out)))"

definition deleteAccount ::
  "AccountNode list \<Rightarrow> AccountType \<Rightarrow> string \<Rightarrow> AccountNode list \<times> int \<times> message list" where
  "deleteAccount list accType name =
     (if list = [] then ([], - 1, [NoAccountsToDelete])
      else deleteAccount_loop list accType name)"

fun checkDuplicateAccount :: "AccountNode list \<Rightarrow> string \<Rightarrow> AccountType \<Rightarrow> bool" where
  "checkDuplicateAccount [] name accType = False"
| "checkDuplicateAccount (current # rest) name accType =
     (if Name current = name \<and> accountType current = accType then True
      else checkDuplicateAccount rest name accType)"

subsection \<open>Reports\<close>

definition display :: "AccountNode list \<Rightarrow> message list" where
  "display l =
     (if l = [] then [NoAccountsToDisplay]
      else DisplayHeader
           # map (\<lambda>n. DisplayRow (AccountNumber n) (accountType n) (Name n) (Amount n)) l
           @ [DisplayFooter])"

text \<open>The loop of \<^verbatim>\<open>lowBalanceAccounts\<close> with its flag \<^verbatim>\<open>foundLowBalance\<close>.\<close>

fun lowBalance_loop :: "AccountNode list \<Rightarrow> bool \<Rightarrow> message list \<times> bool" where
  "lowBalance_loop [] foundLowBalance = ([], foundLowBalance)"
| "lowBalance_loop (l # rest) foundLowBalance =
     (if flt (Amount l) (float_of_int 100)
      then (case lowBalance_loop rest True of
              (out, found) \<Rightarrow> (LowBalanceRow (AccountNumber l) (Name l) (Amount l) # out, found))
      else lowBalance_loop rest foundLowBalance)"

definition lowBalanceAccounts :: "AccountNode list \<Rightarrow> message list" where
  "lowBalanceAccounts l =
     (if l = [] then [NoAccountsToDisplay]
      else (case lowBalance_loop l False of
              (rows, foundLowBalance) \<Rightarrow>
                LowBalanceHeader # rows
                @ (if \<not> foundLowBalance then [NoLowBalanceFound] else [])
                @ [LowBalanceFooter]))"

subsection \<open>Transactions\<close>

text \<open>
  The search loop of \<^verbatim>\<open>transaction\<close>, over the nodes from \<^verbatim>\<open>current\<close> on. The
  transaction code is looked at only once the account has been found.
\<close>

fun transaction_loop ::
  "AccountNode list \<Rightarrow> int \<Rightarrow> float \<Rightarrow> int \<Rightarrow> AccountNode list \<times> message list" where
  "transaction_loop [] transactionAccountNumber amount code =
     ([], [TransactionAccountNotFound transactionAccountNumber])"
| "transaction_loop (current # rest) transactionAccountNumber amount code =
     (if AccountNumber current = transactionAccountNumber then
        (if code = 1 then
           (current\<lparr>Amount := fadd (Amount current) amount\<rparr> # rest,
            [DepositSuccessful transactionAccountNumber (fadd (Amount current) amount)])
         else if code = 0 then
           (if accountType current = SAVINGS
               \<and> flt (fsub (Amount current) amount) (float_of_int 100)
            then (current # rest, [InsufficientSavings])
            else if accountType current = CURRENT
               \<and> flt (fsub (Amount current) amount) (float_of_int 0)
            then (current # rest, [InsufficientCurrent])
            else
              (current\<lparr>Amount := fsub (Amount current) amount\<rparr> # rest,
               [WithdrawalSuccessful transactionAccountNumber (fsub (Amount current) amount)]))
         else (current # rest, [InvalidTransactionCode]))
      else (case transaction_loop rest transactionAccountNumber amount code of
              (rest', out) \<Rightarrow> (current # rest', out)))"

definition transaction ::
  "AccountNode list \<Rightarrow> int \<Rightarrow> float \<Rightarrow> int \<Rightarrow> AccountNode list \<times> message list" where
  "transaction list transactionAccountNumber amount code =
     (if list = [] then (list, [NoAccountsForTransactions])
      else transaction_loop list transactionAccountNumber amount code)"

section \<open>The command loop\<close>

text \<open>
  One command with its arguments, as \<^verbatim>\<open>scanf\<close> has stored them: the account type and
  the name are the strings read (taken to fit their buffers), the account number and
  the transaction code are \<^verbatim>\<open>int\<close>s, an amount is a \<^verbatim>\<open>float\<close>. \<open>OTHER\<close> is any verb
  that is none of the six.
\<close>

datatype command =
    EXIT
  | CREATE string string float
  | DELETE string string
  | DISPLAY
  | LOWBALANCE
  | TRANSACTION int float int
  | OTHER string

text \<open>
  What one iteration of the loop does: it goes on to the next iteration with a new state,
  or it leaves the loop (EXIT), or it runs into undefined behaviour. In each case but
  the last it has printed some messages.
\<close>

datatype step_result = Next bank_state "message list" | Exited "message list" | UndefinedBehaviour

text \<open>
  The conversion of the account type string to the enumeration, which \<^verbatim>\<open>main\<close> does
  in the same way for CREATE and DELETE; \<open>None\<close> is the branch that prints the
  invalid-type message and continues with the next command.
\<close>

definition accountTypeOfString :: "string \<Rightarrow> AccountType option" where
  "accountTypeOfString accountTypeInputStr =
     (if accountTypeInputStr = ''savings'' then Some SAVINGS
      else if accountTypeInputStr = ''current'' then Some CURRENT
      else None)"

text \<open>One iteration of the loop of \<^verbatim>\<open>main\<close>, after the command has been read.\<close>

fun main_step :: "bool \<Rightarrow> bool \<Rightarrow> command \<Rightarrow> bank_state \<Rightarrow> step_result" where
  "main_step malloc_ok strdup_ok EXIT s = Exited [Goodbye]"
| "main_step malloc_ok strdup_ok (CREATE accountTypeInputStr nameInput amountInput) s =
     (case accountTypeOfString accountTypeInputStr of
        None \<Rightarrow> Next s [InvalidAccountType accountTypeInputStr]
      | Some accType \<Rightarrow>
          if checkDuplicateAccount (accountsHead s) nameInput accType
          then Next s [DuplicateAccount nameInput accountTypeInputStr]
          else
            (case createAccount malloc_ok strdup_ok
                    (s\<lparr>deletedAccountNumbersHead :=
                         sortDeletedAccountNumList (deletedAccountNumbersHead s)\<rparr>)
                    accType nameInput amountInput of
               Undefined \<Rightarrow> UndefinedBehaviour
             | Returns (s', out) \<Rightarrow> Next s' out))"
| "main_step malloc_ok strdup_ok (DELETE accountTypeInputStr nameInput) s =
     (case accountTypeOfString accountTypeInputStr of
        None \<Rightarrow> Next s [InvalidAccountType accountTypeInputStr]
      | Some accType \<Rightarrow>
          (case deleteAccount (accountsHead s) accType nameInput of
             (list, deletedNum, out) \<Rightarrow>
               if deletedNum \<noteq> - 1 then
                 (case addDeletedAccountNum malloc_ok (deletedAccountNumbersHead s) deletedNum of
                    (deleted, out') \<Rightarrow>
                      Next (s\<lparr>accountsHead := list, deletedAccountNumbersHead := deleted\<rparr>)
                        (out @ out'))
               else Next (s\<lparr>accountsHead := list\<rparr>) out))"
| "main_step malloc_ok strdup_ok DISPLAY s =
     (let list = sortAccountListByNumber (accountsHead s)
      in Next (s\<lparr>accountsHead := list\<rparr>) (display list))"
| "main_step malloc_ok strdup_ok LOWBALANCE s =
     (let list = sortAccountListByNumber (accountsHead s)
      in Next (s\<lparr>accountsHead := list\<rparr>) (lowBalanceAccounts list))"
| "main_step malloc_ok strdup_ok (TRANSACTION targetAccountNumberInput amountInput transactionCodeInput) s =
     (case transaction (accountsHead s) targetAccountNumberInput amountInput
             transactionCodeInput of
        (list, out) \<Rightarrow> Next (s\<lparr>accountsHead := list\<rparr>) out)"
| "main_step malloc_ok strdup_ok (OTHER commandInput) s = Next s [InvalidCommand commandInput]"

text \<open>
  The loop of \<^verbatim>\<open>main\<close> over a sequence of commands, each with the allocation
  outcomes of its iteration: the state after the last of them and everything printed,
  or \<open>None\<close> when the loop has ended before.
\<close>

fun main_loop ::
  "(bool \<times> bool \<times> command) list \<Rightarrow> bank_state \<Rightarrow> (bank_state \<times> message list) option" where
  "main_loop [] s = Some (s, [])"
| "main_loop ((malloc_ok, strdup_ok, cmd) # rest) s =
     (case main_step malloc_ok strdup_ok cmd s of
        Next s' out \<Rightarrow>
          (case main_loop rest s' of
             Some (s'', out') \<Rightarrow> Some (s'', out @ out')
           | None \<Rightarrow> None)
      | Exited out \<Rightarrow> None
      | UndefinedBehaviour \<Rightarrow> None)"

section \<open>Reading the reports\<close>

text \<open>The account numbers of the rows of a report, in the order they are printed.\<close>

fun row_numbers :: "message list \<Rightarrow> int list" where
  "row_numbers [] = []"
| "row_numbers (DisplayRow n t name amount # out) = n # row_numbers out"
| "row_numbers (LowBalanceRow n name amount # out) = n # row_numbers out"
| "row_numbers (m # out) = row_numbers out"

text \<open>The rows of the low-balance report.\<close>

fun lowBalanceRows :: "message list \<Rightarrow> (int \<times> string \<times> float) list" where
  "lowBalanceRows [] = []"
| "lowBalanceRows (LowBalanceRow n name amount # out) = (n, name, amount) # lowBalanceRows out"
| "lowBalanceRows (m # out) = lowBalanceRows out"

text \<open>The account numbers the program has reported as given to a new account.\<close>

fun created_numbers :: "message list \<Rightarrow> int list" where
  "created_numbers [] = []"
| "created_numbers (AccountCreated n name t amount # out) = n # created_numbers out"
| "created_numbers (m # out) = created_numbers out"

section \<open>Selection sort is a sort\<close>

lemma findMinNode_key_le:
  "key (snd (findMinNode key minNode r l)) \<le> key (snd minNode)
   \<and> (\<forall>x \<in> set l. key (snd (findMinNode key minNode r l)) \<le> key x)"
proof (induction l arbitrary: minNode r)
  case Nil
  show ?case by simp
next
  case (Cons runner rest)
  let ?mn = "if key runner < key (snd minNode) then (r, runner) else minNode"
  from Cons.IH [of ?mn "Suc r"]
  show ?case by (auto split: if_splits)
qed

lemma findMinNode_position:
  "findMinNode key minNode r l = minNode
   \<or> (r \<le> fst (findMinNode key minNode r l)
      \<and> fst (findMinNode key minNode r l) < r + length l
      \<and> l ! (fst (findMinNode key minNode r l) - r) = snd (findMinNode key minNode r l))"
proof (induction l arbitrary: minNode r)
  case Nil
  show ?case by simp
next
  case (Cons runner rest)
  let ?mn = "if key runner < key (snd minNode) then (r, runner) else minNode"
  from Cons.IH [of ?mn "Suc r"]
  show ?case
    by (auto simp: Suc_diff_le split: if_splits)
qed

lemma findMinNode_from_current:
  assumes "findMinNode key (0, current) 1 rest = (m, minNode)"
  shows "(m = 0 \<and> minNode = current)
         \<or> (0 < m \<and> m \<le> length rest \<and> rest ! (m - 1) = minNode)"
  using findMinNode_position [of key "(0, current)" 1 rest] assms by auto

lemma findMinNode_least:
  assumes "findMinNode key (0, current) 1 rest = (m, minNode)"
  shows "key minNode \<le> key current \<and> (\<forall>x \<in> set rest. key minNode \<le> key x)"
  using findMinNode_key_le [of key "(0, current)" 1 rest] assms by simp

lemma mset_exchange:
  assumes "i < length l"
  shows "mset (l ! i # l[i := c]) = mset (c # l)"
  using assms by (simp add: mset_update nth_mem_mset)

lemma mset_selectionLoop:
  assumes "\<forall>a b. swapData a b = (b, a)"
  shows "mset (selectionLoop key swapData l) = mset l"
  using assms
proof (induction key swapData l rule: selectionLoop.induct)
  case (1 key swapData)
  show ?case by simp
next
  case (2 key swapData current rest)
  note swap = "2.prems"
  obtain m minNode where f: "findMinNode key (0, current) 1 rest = (m, minNode)"
    by (cases "findMinNode key (0, current) 1 rest")
  show ?case
  proof (cases "m = 0")
    case True
    with f 2 show ?thesis by simp
  next
    case False
    with findMinNode_from_current [OF f]
    have m: "m - 1 < length rest" and nth: "rest ! (m - 1) = minNode" by auto
    have sw: "(minNode, current) = swapData current minNode"
      by (simp add: swap)
    have unfold: "selectionLoop key swapData (current # rest)
        = minNode # selectionLoop key swapData (rest[m - 1 := current])"
      using f False by (simp add: sw [symmetric])
    from "2.IH"(1) [OF f [symmetric] False sw swap]
    have "mset (selectionLoop key swapData (rest[m - 1 := current])) = mset (rest[m - 1 := current])" .
    then show ?thesis
      unfolding unfold using mset_exchange [OF m, of current] nth by simp
  qed
qed

lemma set_selectionLoop:
  assumes "\<forall>a b. swapData a b = (b, a)"
  shows "set (selectionLoop key swapData l) = set l"
  using mset_selectionLoop [OF assms, of key l] by (metis set_mset_mset)

lemma sorted_selectionLoop:
  assumes "\<forall>a b. swapData a b = (b, a)"
  shows "sorted (map key (selectionLoop key swapData l))"
  using assms
proof (induction key swapData l rule: selectionLoop.induct)
  case (1 key swapData)
  show ?case by simp
next
  case (2 key swapData current rest)
  note swap = "2.prems"
  obtain m minNode where f: "findMinNode key (0, current) 1 rest = (m, minNode)"
    by (cases "findMinNode key (0, current) 1 rest")
  note least = findMinNode_least [OF f]
  show ?case
  proof (cases "m = 0")
    case True
    with findMinNode_from_current [OF f] have "minNode = current" by simp
    with least have "\<forall>x \<in> set (selectionLoop key swapData rest). key current \<le> key x"
      by (simp add: set_selectionLoop [OF swap])
    with f True "2.IH"(2) [OF f [symmetric] _ swap] show ?thesis by simp
  next
    case False
    have sw: "(minNode, current) = swapData current minNode"
      by (simp add: swap)
    have "set (rest[m - 1 := current]) \<subseteq> insert current (set rest)"
      by (rule set_update_subset_insert)
    with least have "\<forall>x \<in> set (selectionLoop key swapData (rest[m - 1 := current])). key minNode \<le> key x"
      by (auto simp: set_selectionLoop [OF swap])
    moreover have "selectionLoop key swapData (current # rest)
        = minNode # selectionLoop key swapData (rest[m - 1 := current])"
      using f False by (simp add: sw [symmetric])
    ultimately show ?thesis
      using "2.IH"(1) [OF f [symmetric] False sw swap] by simp
  qed
qed

lemma swapAccountNum_swaps: "\<forall>a b. swapAccountNum a b = (b, a)"
  by (simp add: swapAccountNum_def)

lemma swapAccountData_swaps: "\<forall>a b. swapAccountData a b = (b, a)"
  by (simp add: swapAccountData_def)

lemma mset_sortAccountListByNumber: "mset (sortAccountListByNumber l) = mset l"
  by (simp add: sortAccountListByNumber_def mset_selectionLoop [OF swapAccountData_swaps])

lemma sorted_sortAccountListByNumber: "sorted (map AccountNumber (sortAccountListByNumber l))"
proof (cases "l = [] \<or> tl l = []")
  case True
  then show ?thesis
    by (cases l) (auto simp: sortAccountListByNumber_def)
next
  case False
  then show ?thesis
    by (simp add: sortAccountListByNumber_def sorted_selectionLoop [OF swapAccountData_swaps])
qed

lemma row_numbers_DisplayRows:
  "row_numbers (map (\<lambda>n. DisplayRow (AccountNumber n) (accountType n) (Name n) (Amount n)) l @ out)
     = map AccountNumber l @ row_numbers out"
  by (induction l) simp_all

lemma row_numbers_display: "row_numbers (display l) = map AccountNumber l"
  by (simp add: display_def row_numbers_DisplayRows)

lemma lowBalance_loop_filter:
  "lowBalance_loop l found =
     (map (\<lambda>n. LowBalanceRow (AccountNumber n) (Name n) (Amount n))
        (filter (\<lambda>n. flt (Amount n) (float_of_int 100)) l),
      found \<or> filter (\<lambda>n. flt (Amount n) (float_of_int 100)) l \<noteq> [])"
  by (induction l arbitrary: found) simp_all

lemma lowBalanceRows_LowBalanceRows:
  "lowBalanceRows (map (\<lambda>n. LowBalanceRow (AccountNumber n) (Name n) (Amount n)) l @ out)
     = map (\<lambda>n. (AccountNumber n, Name n, Amount n)) l @ lowBalanceRows out"
  by (induction l) simp_all

lemma lowBalanceRows_lowBalanceAccounts:
  "lowBalanceRows (lowBalanceAccounts l)
     = map (\<lambda>n. (AccountNumber n, Name n, Amount n))
         (filter (\<lambda>n. flt (Amount n) (float_of_int 100)) l)"
  by (simp add: lowBalanceAccounts_def lowBalance_loop_filter lowBalanceRows_LowBalanceRows)

lemma row_numbers_LowBalanceRows:
  "row_numbers (map (\<lambda>n. LowBalanceRow (AccountNumber n) (Name n) (Amount n)) l @ out)
     = map AccountNumber l @ row_numbers out"
  by (induction l) simp_all

lemma row_numbers_lowBalanceAccounts:
  "row_numbers (lowBalanceAccounts l)
     = map AccountNumber (filter (\<lambda>n. flt (Amount n) (float_of_int 100)) l)"
  by (simp add: lowBalanceAccounts_def lowBalance_loop_filter row_numbers_LowBalanceRows)

lemma float_of_int_100: "float_of_int 100 = Finite 100"
  by code_simp

lemma float_of_int_0: "float_of_int 0 = Finite 0"
  by (simp add: float_of_int_def float_round_def)

lemma flt_irrefl: "\<not> flt x x"
  by (cases x) simp_all

section \<open>Sorting the account list\<close>

text \<open>
  Claim C10. Sorting the account list by number, as DISPLAY and LOWBALANCE do, only
  reorders the live accounts: the sorted list has the same accounts, each with its own
  number, name, type and balance, as often as the list before (equal multisets of whole
  nodes), although the implementation swaps the four fields one by one: that swap
  exchanges the two nodes' data. The two commands write back the sorted list and leave
  the recycle list and the counter as they are.
\<close>

theorem sort_permutes_accounts:
  "mset (sortAccountListByNumber l) = mset l
   \<and> length (sortAccountListByNumber l) = length l
   \<and> swapAccountData x y = (y, x)
   \<and> main_step malloc_ok strdup_ok DISPLAY s
       = Next (s\<lparr>accountsHead := sortAccountListByNumber (accountsHead s)\<rparr>)
           (display (sortAccountListByNumber (accountsHead s)))
   \<and> main_step malloc_ok strdup_ok LOWBALANCE s
       = Next (s\<lparr>accountsHead := sortAccountListByNumber (accountsHead s)\<rparr>)
           (lowBalanceAccounts (sortAccountListByNumber (accountsHead s)))"
proof -
  have "length (sortAccountListByNumber l) = length l"
    using mset_sortAccountListByNumber [of l] by (rule mset_eq_length)
  then show ?thesis
    using swapAccountData_swaps by (simp add: mset_sortAccountListByNumber Let_def)
qed

theorem sort_permutes_accounts_witness:
  "mset (sortAccountListByNumber
      [\<lparr>AccountNumber = 102, Name = ''Dan'', accountType = CURRENT, Amount = Finite 30\<rparr>,
       \<lparr>AccountNumber = 100, Name = ''Carol'', accountType = SAVINGS, Amount = Finite 300\<rparr>,
       \<lparr>AccountNumber = 101, Name = ''Bob'', accountType = CURRENT, Amount = Finite 200\<rparr>])
   = mset
      [\<lparr>AccountNumber = 102, Name = ''Dan'', accountType = CURRENT, Amount = Finite 30\<rparr>,
       \<lparr>AccountNumber = 100, Name = ''Carol'', accountType = SAVINGS, Amount = Finite 300\<rparr>,
       \<lparr>AccountNumber = 101, Name = ''Bob'', accountType = CURRENT, Amount = Finite 200\<rparr>]
   \<and> sortAccountListByNumber
      [\<lparr>AccountNumber = 102, Name = ''Dan'', accountType = CURRENT, Amount = Finite 30\<rparr>,
       \<lparr>AccountNumber = 100, Name = ''Carol'', accountType = SAVINGS, Amount = Finite 300\<rparr>,
       \<lparr>AccountNumber = 101, Name = ''Bob'', accountType = CURRENT, Amount = Finite 200\<rparr>]
   = [\<lparr>AccountNumber = 100, Name = ''Carol'', accountType = SAVINGS, Amount = Finite 300\<rparr>,
       \<lparr>AccountNumber = 101, Name = ''Bob'', accountType = CURRENT, Amount = Finite 200\<rparr>,
       \<lparr>AccountNumber = 102, Name = ''Dan'', accountType = CURRENT, Amount = Finite 30\<rparr>]"
  using sort_permutes_accounts
    [of "[\<lparr>AccountNumber = 102, Name = ''Dan'', accountType = CURRENT, Amount = Finite 30\<rparr>,
       \<lparr>AccountNumber = 100, Name = ''Carol'', accountType = SAVINGS, Amount = Finite 300\<rparr>,
       \<lparr>AccountNumber = 101, Name = ''Bob'', accountType = CURRENT, Amount = Finite 200\<rparr>]"]
  by (simp add: sortAccountListByNumber_def swapAccountData_def)

text \<open>
  Claim C6. From every state, hence after every sequence of commands, DISPLAY prints one
  row for each live account in ascending order of account number, and leaves the list
  sorted; LOWBALANCE sorts the list again in the same way before it reports. The list
  is not kept sorted in between: a new account goes to its end, whatever its number.
\<close>

theorem display_sorted:
  "(\<exists>out. main_step malloc_ok strdup_ok DISPLAY s
            = Next (s\<lparr>accountsHead := sortAccountListByNumber (accountsHead s)\<rparr>) out
        \<and> row_numbers out = map AccountNumber (sortAccountListByNumber (accountsHead s))
        \<and> sorted (row_numbers out))
   \<and> (\<exists>out. main_step malloc_ok strdup_ok LOWBALANCE s
            = Next (s\<lparr>accountsHead := sortAccountListByNumber (accountsHead s)\<rparr>) out
        \<and> sorted (row_numbers out))
   \<and> sorted (map AccountNumber (sortAccountListByNumber l))
   \<and> (\<forall>s' out. createAccount True True s t name amount = Returns (s', out) \<longrightarrow>
         (\<exists>n. accountsHead s' = accountsHead s @
                [\<lparr>AccountNumber = n, Name = name, accountType = t, Amount = amount\<rparr>]))"
proof -
  let ?l = "sortAccountListByNumber (accountsHead s)"
  have "sorted (map AccountNumber (filter (\<lambda>n. flt (Amount n) (float_of_int 100)) ?l))"
    using sorted_sortAccountListByNumber [of "accountsHead s"] by (rule sorted_filter)
  moreover have "\<forall>s' out. createAccount True True s t name amount = Returns (s', out) \<longrightarrow>
         (\<exists>n. accountsHead s' = accountsHead s @
                [\<lparr>AccountNumber = n, Name = name, accountType = t, Amount = amount\<rparr>])"
    by (auto simp: createAccount_def Let_def split: list.splits if_splits)
  ultimately show ?thesis
    by (simp add: Let_def row_numbers_display row_numbers_lowBalanceAccounts
        sorted_sortAccountListByNumber)
qed

theorem display_sorted_witness:
  "main_step True True DISPLAY
     \<lparr>accountsHead =
        [\<lparr>AccountNumber = 102, Name = ''Dan'', accountType = CURRENT, Amount = Finite 30\<rparr>,
         \<lparr>AccountNumber = 100, Name = ''Carol'', accountType = SAVINGS, Amount = Finite 300\<rparr>,
         \<lparr>AccountNumber = 101, Name = ''Bob'', accountType = CURRENT, Amount = Finite 200\<rparr>],
      deletedAccountNumbersHead = [], globalNextAccountNumber = 103\<rparr>
   = Next
     \<lparr>accountsHead =
        [\<lparr>AccountNumber = 100, Name = ''Carol'', accountType = SAVINGS, Amount = Finite 300\<rparr>,
         \<lparr>AccountNumber = 101, Name = ''Bob'', accountType = CURRENT, Amount = Finite 200\<rparr>,
         \<lparr>AccountNumber = 102, Name = ''Dan'', accountType = CURRENT, Amount = Finite 30\<rparr>],
      deletedAccountNumbersHead = [], globalNextAccountNumber = 103\<rparr>
     [DisplayHeader, DisplayRow 100 SAVINGS ''Carol'' (Finite 300),
      DisplayRow 101 CURRENT ''Bob'' (Finite 200), DisplayRow 102 CURRENT ''Dan'' (Finite 30),
      DisplayFooter]
   \<and> sorted (map AccountNumber (sortAccountListByNumber
        [\<lparr>AccountNumber = 102, Name = ''Dan'', accountType = CURRENT, Amount = Finite 30\<rparr>,
         \<lparr>AccountNumber = 100, Name = ''Carol'', accountType = SAVINGS, Amount = Finite 300\<rparr>,
         \<lparr>AccountNumber = 101, Name = ''Bob'', accountType = CURRENT, Amount = Finite 200\<rparr>]))"
  using display_sorted
    [of True True
      "\<lparr>accountsHead =
        [\<lparr>AccountNumber = 102, Name = ''Dan'', accountType = CURRENT, Amount = Finite 30\<rparr>,
         \<lparr>AccountNumber = 100, Name = ''Carol'', accountType = SAVINGS, Amount = Finite 300\<rparr>,
         \<lparr>AccountNumber = 101, Name = ''Bob'', accountType = CURRENT, Amount = Finite 200\<rparr>],
      deletedAccountNumbersHead = [], globalNextAccountNumber = 103\<rparr>"
      "[\<lparr>AccountNumber = 102, Name = ''Dan'', accountType = CURRENT, Amount = Finite 30\<rparr>,
         \<lparr>AccountNumber = 100, Name = ''Carol'', accountType = SAVINGS, Amount = Finite 300\<rparr>,
         \<lparr>AccountNumber = 101, Name = ''Bob'', accountType = CURRENT, Amount = Finite 200\<rparr>]"]
  by (simp add: sortAccountListByNumber_def swapAccountData_def display_def)

text \<open>
  Claim C7. LOWBALANCE prints exactly the live accounts whose balance is strictly less
  than 100, in ascending order of account number: its rows are the accounts of the
  sorted list that pass the test, and those are the accounts of the list before that
  pass it. A balance of 100 does not pass; the \<^verbatim>\<open>float\<close> nearest to 99.99 does.
\<close>

theorem lowbalance_report:
  "(\<exists>out. main_step malloc_ok strdup_ok LOWBALANCE s
            = Next (s\<lparr>accountsHead := sortAccountListByNumber (accountsHead s)\<rparr>) out
        \<and> lowBalanceRows out
            = map (\<lambda>n. (AccountNumber n, Name n, Amount n))
                (filter (\<lambda>n. flt (Amount n) (Finite 100))
                   (sortAccountListByNumber (accountsHead s)))
        \<and> sorted (map fst (lowBalanceRows out)))
   \<and> mset (filter (\<lambda>n. flt (Amount n) (Finite 100)) (sortAccountListByNumber (accountsHead s)))
       = filter_mset (\<lambda>n. flt (Amount n) (Finite 100)) (mset (accountsHead s))
   \<and> \<not> flt (Finite 100) (Finite 100)
   \<and> flt (float_round (9999 / 100)) (Finite 100)"
proof -
  let ?l = "sortAccountListByNumber (accountsHead s)"
  let ?low = "\<lambda>n. flt (Amount n) (Finite 100)"
  have "sorted (map AccountNumber (filter ?low ?l))"
    using sorted_sortAccountListByNumber [of "accountsHead s"] by (rule sorted_filter)
  then have "sorted (map fst (map (\<lambda>n. (AccountNumber n, Name n, Amount n)) (filter ?low ?l)))"
    by (simp add: comp_def)
  moreover have "mset (filter ?low ?l) = filter_mset ?low (mset (accountsHead s))"
    by (simp add: mset_sortAccountListByNumber)
  moreover have "flt (float_round (9999 / 100)) (Finite 100)"
    by code_simp
  ultimately show ?thesis
    by (simp add: Let_def lowBalanceRows_lowBalanceAccounts float_of_int_100)
qed


theorem lowbalance_report_witness:
  "main_step True True LOWBALANCE
     \<lparr>accountsHead =
        [\<lparr>AccountNumber = 102, Name = ''Dan'', accountType = CURRENT,
            Amount = float_round (9999 / 100)\<rparr>,
         \<lparr>AccountNumber = 100, Name = ''Carol'', accountType = SAVINGS, Amount = Finite 50\<rparr>,
         \<lparr>AccountNumber = 101, Name = ''Bob'', accountType = CURRENT, Amount = Finite 150\<rparr>,
         \<lparr>AccountNumber = 103, Name = ''Eve'', accountType = SAVINGS, Amount = Finite 100\<rparr>],
      deletedAccountNumbersHead = [], globalNextAccountNumber = 104\<rparr>
   = Next
     \<lparr>accountsHead =
        [\<lparr>AccountNumber = 100, Name = ''Carol'', accountType = SAVINGS, Amount = Finite 50\<rparr>,
         \<lparr>AccountNumber = 101, Name = ''Bob'', accountType = CURRENT, Amount = Finite 150\<rparr>,
         \<lparr>AccountNumber = 102, Name = ''Dan'', accountType = CURRENT,
            Amount = float_round (9999 / 100)\<rparr>,
         \<lparr>AccountNumber = 103, Name = ''Eve'', accountType = SAVINGS, Amount = Finite 100\<rparr>],
      deletedAccountNumbersHead = [], globalNextAccountNumber = 104\<rparr>
     [LowBalanceHeader, LowBalanceRow 100 ''Carol'' (Finite 50),
      LowBalanceRow 102 ''Dan'' (float_round (9999 / 100)), LowBalanceFooter]"
proof -
  have low: "flt (float_round (9999 / 100)) (Finite 100)"
    by code_simp
  show ?thesis
    using lowbalance_report
      [of True True
        "\<lparr>accountsHead =
          [\<lparr>AccountNumber = 102, Name = ''Dan'', accountType = CURRENT,
              Amount = float_round (9999 / 100)\<rparr>,
           \<lparr>AccountNumber = 100, Name = ''Carol'', accountType = SAVINGS, Amount = Finite 50\<rparr>,
           \<lparr>AccountNumber = 101, Name = ''Bob'', accountType = CURRENT, Amount = Finite 150\<rparr>,
           \<lparr>AccountNumber = 103, Name = ''Eve'', accountType = SAVINGS, Amount = Finite 100\<rparr>],
        deletedAccountNumbersHead = [], globalNextAccountNumber = 104\<rparr>"]
    by (simp add: sortAccountListByNumber_def swapAccountData_def lowBalanceAccounts_def
        float_of_int_100 low)
qed

section \<open>Transactions\<close>

lemma transaction_loop_not_found:
  "N \<notin> AccountNumber ` set l \<Longrightarrow>
     transaction_loop l N amount code = (l, [TransactionAccountNotFound N])"
  by (induction l) auto

lemma transaction_loop_skip:
  "\<forall>p \<in> set pre. AccountNumber p \<noteq> N \<Longrightarrow>
     transaction_loop (pre @ l) N amount code =
       (pre @ fst (transaction_loop l N amount code), snd (transaction_loop l N amount code))"
  by (induction pre) (auto split: prod.splits)

lemma transaction_loop_invalid_code:
  "code \<noteq> 1 \<Longrightarrow> code \<noteq> 0 \<Longrightarrow>
     transaction_loop l N amount code =
       (l, [if N \<in> AccountNumber ` set l then InvalidTransactionCode
            else TransactionAccountNotFound N])"
  by (induction l) auto

lemma checkDuplicateAccount_iff:
  "checkDuplicateAccount l name t \<longleftrightarrow> (\<exists>acc \<in> set l. Name acc = name \<and> accountType acc = t)"
  by (induction l) auto

text \<open>
  Claim C3. A withdrawal (code 0) of \<open>A\<close> from the savings account numbered \<open>N\<close>, in
  any account list, with balance \<open>B\<close>: it is refused with the insufficient-balance
  message for savings exactly when \<open>B - A < 100\<close>, where \<open>-\<close> and \<open><\<close> are the
  program's \<^verbatim>\<open>float\<close> subtraction and comparison, and then the state is the one
  before; otherwise the balance becomes \<open>B - A\<close> and nothing else changes. A withdrawal
  that leaves exactly 100 goes through.
\<close>

theorem savings_withdrawal:
  assumes "accountsHead s = pre @ acct # post"
    and "\<forall>p \<in> set pre. AccountNumber p \<noteq> N"
    and "AccountNumber acct = N"
    and "accountType acct = SAVINGS"
  shows "main_step malloc_ok strdup_ok (TRANSACTION N A 0) s =
           (if flt (fsub (Amount acct) A) (Finite 100) then Next s [InsufficientSavings]
            else Next (s\<lparr>accountsHead := pre @ acct\<lparr>Amount := fsub (Amount acct) A\<rparr> # post\<rparr>)
                   [WithdrawalSuccessful N (fsub (Amount acct) A)])
         \<and> ((\<exists>s'. main_step malloc_ok strdup_ok (TRANSACTION N A 0) s = Next s' [InsufficientSavings])
              \<longleftrightarrow> flt (fsub (Amount acct) A) (Finite 100))
         \<and> (fsub (Amount acct) A = Finite 100 \<longrightarrow>
              main_step malloc_ok strdup_ok (TRANSACTION N A 0) s =
                Next (s\<lparr>accountsHead := pre @ acct\<lparr>Amount := Finite 100\<rparr> # post\<rparr>)
                  [WithdrawalSuccessful N (Finite 100)])"
proof -
  have step: "main_step malloc_ok strdup_ok (TRANSACTION N A 0) s =
           (if flt (fsub (Amount acct) A) (Finite 100) then Next s [InsufficientSavings]
            else Next (s\<lparr>accountsHead := pre @ acct\<lparr>Amount := fsub (Amount acct) A\<rparr> # post\<rparr>)
                   [WithdrawalSuccessful N (fsub (Amount acct) A)])"
    using assms
    by (simp add: transaction_def transaction_loop_skip float_of_int_100)
  show ?thesis
    unfolding step by (auto simp: flt_irrefl)
qed

theorem savings_withdrawal_witness:
  "main_step True True (TRANSACTION 100 (Finite 400) 0)
     \<lparr>accountsHead =
        [\<lparr>AccountNumber = 101, Name = ''Bob'', accountType = CURRENT, Amount = Finite 200\<rparr>,
         \<lparr>AccountNumber = 100, Name = ''Carol'', accountType = SAVINGS, Amount = Finite 500\<rparr>],
      deletedAccountNumbersHead = [], globalNextAccountNumber = 102\<rparr>
   = Next
     \<lparr>accountsHead =
        [\<lparr>AccountNumber = 101, Name = ''Bob'', accountType = CURRENT, Amount = Finite 200\<rparr>,
         \<lparr>AccountNumber = 100, Name = ''Carol'', accountType = SAVINGS, Amount = Finite 100\<rparr>],
      deletedAccountNumbersHead = [], globalNextAccountNumber = 102\<rparr>
     [WithdrawalSuccessful 100 (Finite 100)]
   \<and> main_step True True (TRANSACTION 100 (Finite 401) 0)
     \<lparr>accountsHead =
        [\<lparr>AccountNumber = 101, Name = ''Bob'', accountType = CURRENT, Amount = Finite 200\<rparr>,
         \<lparr>AccountNumber = 100, Name = ''Carol'', accountType = SAVINGS, Amount = Finite 500\<rparr>],
      deletedAccountNumbersHead = [], globalNextAccountNumber = 102\<rparr>
   = Next
     \<lparr>accountsHead =
        [\<lparr>AccountNumber = 101, Name = ''Bob'', accountType = CURRENT, Amount = Finite 200\<rparr>,
         \<lparr>AccountNumber = 100, Name = ''Carol'', accountType = SAVINGS, Amount = Finite 500\<rparr>],
      deletedAccountNumbersHead = [], globalNextAccountNumber = 102\<rparr>
     [InsufficientSavings]"
proof -
  have a: "fsub (Finite 500) (Finite 400) = Finite 100"
    by code_simp
  have b: "flt (fsub (Finite 500) (Finite 401)) (Finite 100)"
    by code_simp
  show ?thesis
    using savings_withdrawal
      [of "\<lparr>accountsHead =
        [\<lparr>AccountNumber = 101, Name = ''Bob'', accountType = CURRENT, Amount = Finite 200\<rparr>,
         \<lparr>AccountNumber = 100, Name = ''Carol'', accountType = SAVINGS, Amount = Finite 500\<rparr>],
      deletedAccountNumbersHead = [], globalNextAccountNumber = 102\<rparr>"
        "[\<lparr>AccountNumber = 101, Name = ''Bob'', accountType = CURRENT, Amount = Finite 200\<rparr>]"
        "\<lparr>AccountNumber = 100, Name = ''Carol'', accountType = SAVINGS, Amount = Finite 500\<rparr>"
        "[]" 100 True True "Finite 400"]
      savings_withdrawal
      [of "\<lparr>accountsHead =
        [\<lparr>AccountNumber = 101, Name = ''Bob'', accountType = CURRENT, Amount = Finite 200\<rparr>,
         \<lparr>AccountNumber = 100, Name = ''Carol'', accountType = SAVINGS, Amount = Finite 500\<rparr>],
      deletedAccountNumbersHead = [], globalNextAccountNumber = 102\<rparr>"
        "[\<lparr>AccountNumber = 101, Name = ''Bob'', accountType = CURRENT, Amount = Finite 200\<rparr>]"
        "\<lparr>AccountNumber = 100, Name = ''Carol'', accountType = SAVINGS, Amount = Finite 500\<rparr>"
        "[]" 100 True True "Finite 401"]
    by (simp add: a b)
qed

text \<open>
  Claim C4. The same for a current account, with the floor 0: the withdrawal is refused
  with the message for current accounts exactly when \<open>B - A < 0\<close>, leaving the state as
  it was; otherwise the balance becomes \<open>B - A\<close>. A withdrawal that leaves exactly 0 goes
  through.
\<close>

theorem current_withdrawal:
  assumes "accountsHead s = pre @ acct # post"
    and "\<forall>p \<in> set pre. AccountNumber p \<noteq> N"
    and "AccountNumber acct = N"
    and "accountType acct = CURRENT"
  shows "main_step malloc_ok strdup_ok (TRANSACTION N A 0) s =
           (if flt (fsub (Amount acct) A) (Finite 0) then Next s [InsufficientCurrent]
            else Next (s\<lparr>accountsHead := pre @ acct\<lparr>Amount := fsub (Amount acct) A\<rparr> # post\<rparr>)
                   [WithdrawalSuccessful N (fsub (Amount acct) A)])
         \<and> ((\<exists>s'. main_step malloc_ok strdup_ok (TRANSACTION N A 0) s = Next s' [InsufficientCurrent])
              \<longleftrightarrow> flt (fsub (Amount acct) A) (Finite 0))
         \<and> (fsub (Amount acct) A = Finite 0 \<longrightarrow>
              main_step malloc_ok strdup_ok (TRANSACTION N A 0) s =
                Next (s\<lparr>accountsHead := pre @ acct\<lparr>Amount := Finite 0\<rparr> # post\<rparr>)
                  [WithdrawalSuccessful N (Finite 0)])"
proof -
  have step: "main_step malloc_ok strdup_ok (TRANSACTION N A 0) s =
           (if flt (fsub (Amount acct) A) (Finite 0) then Next s [InsufficientCurrent]
            else Next (s\<lparr>accountsHead := pre @ acct\<lparr>Amount := fsub (Amount acct) A\<rparr> # post\<rparr>)
                   [WithdrawalSuccessful N (fsub (Amount acct) A)])"
    using assms
    by (simp add: transaction_def transaction_loop_skip float_of_int_0)
  show ?thesis
    unfolding step by (auto simp: flt_irrefl)
qed

theorem current_withdrawal_witness:
  "main_step True True (TRANSACTION 101 (Finite 200) 0)
     \<lparr>accountsHead =
        [\<lparr>AccountNumber = 101, Name = ''Bob'', accountType = CURRENT, Amount = Finite 200\<rparr>,
         \<lparr>AccountNumber = 100, Name = ''Carol'', accountType = SAVINGS, Amount = Finite 500\<rparr>],
      deletedAccountNumbersHead = [], globalNextAccountNumber = 102\<rparr>
   = Next
     \<lparr>accountsHead =
        [\<lparr>AccountNumber = 101, Name = ''Bob'', accountType = CURRENT, Amount = Finite 0\<rparr>,
         \<lparr>AccountNumber = 100, Name = ''Carol'', accountType = SAVINGS, Amount = Finite 500\<rparr>],
      deletedAccountNumbersHead = [], globalNextAccountNumber = 102\<rparr>
     [WithdrawalSuccessful 101 (Finite 0)]
   \<and> main_step True True (TRANSACTION 101 (Finite 201) 0)
     \<lparr>accountsHead =
        [\<lparr>AccountNumber = 101, Name = ''Bob'', accountType = CURRENT, Amount = Finite 200\<rparr>,
         \<lparr>AccountNumber = 100, Name = ''Carol'', accountType = SAVINGS, Amount = Finite 500\<rparr>],
      deletedAccountNumbersHead = [], globalNextAccountNumber = 102\<rparr>
   = Next
     \<lparr>accountsHead =
        [\<lparr>AccountNumber = 101, Name = ''Bob'', accountType = CURRENT, Amount = Finite 200\<rparr>,
         \<lparr>AccountNumber = 100, Name = ''Carol'', accountType = SAVINGS, Amount = Finite 500\<rparr>],
      deletedAccountNumbersHead = [], globalNextAccountNumber = 102\<rparr>
     [InsufficientCurrent]"
proof -
  have a: "fsub (Finite 200) (Finite 200) = Finite 0"
    by code_simp
  have b: "flt (fsub (Finite 200) (Finite 201)) (Finite 0)"
    by code_simp
  show ?thesis
    using current_withdrawal
      [of "\<lparr>accountsHead =
        [\<lparr>AccountNumber = 101, Name = ''Bob'', accountType = CURRENT, Amount = Finite 200\<rparr>,
         \<lparr>AccountNumber = 100, Name = ''Carol'', accountType = SAVINGS, Amount = Finite 500\<rparr>],
      deletedAccountNumbersHead = [], globalNextAccountNumber = 102\<rparr>"
        "[]"
        "\<lparr>AccountNumber = 101, Name = ''Bob'', accountType = CURRENT, Amount = Finite 200\<rparr>"
        "[\<lparr>AccountNumber = 100, Name = ''Carol'', accountType = SAVINGS, Amount = Finite 500\<rparr>]" 101 True True "Finite 200"]
      current_withdrawal
      [of "\<lparr>accountsHead =
        [\<lparr>AccountNumber = 101, Name = ''Bob'', accountType = CURRENT, Amount = Finite 200\<rparr>,
         \<lparr>AccountNumber = 100, Name = ''Carol'', accountType = SAVINGS, Amount = Finite 500\<rparr>],
      deletedAccountNumbersHead = [], globalNextAccountNumber = 102\<rparr>"
        "[]"
        "\<lparr>AccountNumber = 101, Name = ''Bob'', accountType = CURRENT, Amount = Finite 200\<rparr>"
        "[\<lparr>AccountNumber = 100, Name = ''Carol'', accountType = SAVINGS, Amount = Finite 500\<rparr>]" 101 True True "Finite 201"]
    by (simp add: a b)
qed

text \<open>
  Claim C8. A TRANSACTION on a number that no live account holds, with any amount and any
  code, changes nothing (the account list, the recycle list and the counter are the ones
  before) and reports that the account does not exist; when there is no account at all
  the program says so with its own message.
\<close>

theorem transaction_unknown_account:
  assumes "N \<notin> AccountNumber ` set (accountsHead s)"
  shows "main_step malloc_ok strdup_ok (TRANSACTION N amount code) s =
           Next s [if accountsHead s = [] then NoAccountsForTransactions
                   else TransactionAccountNotFound N]"
  using assms by (simp add: transaction_def transaction_loop_not_found)

theorem transaction_unknown_account_witness:
  "main_step True True (TRANSACTION 999 (Finite 10) 1)
     \<lparr>accountsHead =
        [\<lparr>AccountNumber = 101, Name = ''Bob'', accountType = CURRENT, Amount = Finite 200\<rparr>,
         \<lparr>AccountNumber = 100, Name = ''Carol'', accountType = SAVINGS, Amount = Finite 500\<rparr>],
      deletedAccountNumbersHead = [], globalNextAccountNumber = 102\<rparr>
   = Next
     \<lparr>accountsHead =
        [\<lparr>AccountNumber = 101, Name = ''Bob'', accountType = CURRENT, Amount = Finite 200\<rparr>,
         \<lparr>AccountNumber = 100, Name = ''Carol'', accountType = SAVINGS, Amount = Finite 500\<rparr>],
      deletedAccountNumbersHead = [], globalNextAccountNumber = 102\<rparr>
     [TransactionAccountNotFound 999]"
  using transaction_unknown_account
    [of 999 "\<lparr>accountsHead =
        [\<lparr>AccountNumber = 101, Name = ''Bob'', accountType = CURRENT, Amount = Finite 200\<rparr>,
         \<lparr>AccountNumber = 100, Name = ''Carol'', accountType = SAVINGS, Amount = Finite 500\<rparr>],
      deletedAccountNumbersHead = [], globalNextAccountNumber = 102\<rparr>" True True "Finite 10" 1]
  by simp

text \<open>
  Claim C9 says that a code other than 0 and 1 is rejected as invalid before the account
  is looked up. The program looks the account up first: with such a code and a number
  that no account holds, the answer is that the account does not exist.
\<close>

theorem invalid_code_counterexample:
  "main_step True True (TRANSACTION 999 (Finite 10) 2)
     \<lparr>accountsHead =
        [\<lparr>AccountNumber = 101, Name = ''Bob'', accountType = CURRENT, Amount = Finite 200\<rparr>,
         \<lparr>AccountNumber = 100, Name = ''Carol'', accountType = SAVINGS, Amount = Finite 500\<rparr>],
      deletedAccountNumbersHead = [], globalNextAccountNumber = 102\<rparr>
   \<noteq> Next
     \<lparr>accountsHead =
        [\<lparr>AccountNumber = 101, Name = ''Bob'', accountType = CURRENT, Amount = Finite 200\<rparr>,
         \<lparr>AccountNumber = 100, Name = ''Carol'', accountType = SAVINGS, Amount = Finite 500\<rparr>],
      deletedAccountNumbersHead = [], globalNextAccountNumber = 102\<rparr>
     [InvalidTransactionCode]
   \<and> main_step True True (TRANSACTION 999 (Finite 10) 2)
     \<lparr>accountsHead =
        [\<lparr>AccountNumber = 101, Name = ''Bob'', accountType = CURRENT, Amount = Finite 200\<rparr>,
         \<lparr>AccountNumber = 100, Name = ''Carol'', accountType = SAVINGS, Amount = Finite 500\<rparr>],
      deletedAccountNumbersHead = [], globalNextAccountNumber = 102\<rparr>
   = Next
     \<lparr>accountsHead =
        [\<lparr>AccountNumber = 101, Name = ''Bob'', accountType = CURRENT, Amount = Finite 200\<rparr>,
         \<lparr>AccountNumber = 100, Name = ''Carol'', accountType = SAVINGS, Amount = Finite 500\<rparr>],
      deletedAccountNumbersHead = [], globalNextAccountNumber = 102\<rparr>
     [TransactionAccountNotFound 999]"
  by (simp add: transaction_def)

text \<open>
  Claim C9, amended. A TRANSACTION with a code other than 0 and 1 never changes the
  state. The code is examined once the account has been found: the answer is the
  invalid-code message when a live account holds the number, and the not-found answer
  of claim C8 when none does.
\<close>

theorem invalid_code_after_lookup:
  assumes "code \<noteq> 1" and "code \<noteq> 0"
  shows "main_step malloc_ok strdup_ok (TRANSACTION N amount code) s =
           Next s [if accountsHead s = [] then NoAccountsForTransactions
                   else if N \<in> AccountNumber ` set (accountsHead s) then InvalidTransactionCode
                   else TransactionAccountNotFound N]"
  using assms by (simp add: transaction_def transaction_loop_invalid_code)

theorem invalid_code_after_lookup_witness:
  "main_step True True (TRANSACTION 100 (Finite 10) 2)
     \<lparr>accountsHead =
        [\<lparr>AccountNumber = 101, Name = ''Bob'', accountType = CURRENT, Amount = Finite 200\<rparr>,
         \<lparr>AccountNumber = 100, Name = ''Carol'', accountType = SAVINGS, Amount = Finite 500\<rparr>],
      deletedAccountNumbersHead = [], globalNextAccountNumber = 102\<rparr>
   = Next
     \<lparr>accountsHead =
        [\<lparr>AccountNumber = 101, Name = ''Bob'', accountType = CURRENT, Amount = Finite 200\<rparr>,
         \<lparr>AccountNumber = 100, Name = ''Carol'', accountType = SAVINGS, Amount = Finite 500\<rparr>],
      deletedAccountNumbersHead = [], globalNextAccountNumber = 102\<rparr>
     [InvalidTransactionCode]"
  using invalid_code_after_lookup
    [of 2 True True 100 "Finite 10" "\<lparr>accountsHead =
        [\<lparr>AccountNumber = 101, Name = ''Bob'', accountType = CURRENT, Amount = Finite 200\<rparr>,
         \<lparr>AccountNumber = 100, Name = ''Carol'', accountType = SAVINGS, Amount = Finite 500\<rparr>],
      deletedAccountNumbersHead = [], globalNextAccountNumber = 102\<rparr>"]
  by simp

section \<open>Creating accounts\<close>

text \<open>
  Claim C5. CREATE with a valid account type is refused as a duplicate exactly when a
  live account has the same name (equal strings) and the same type, and then nothing is
  changed: the state after is the state before, with its account list, recycle list and
  counter.
\<close>

theorem create_duplicate:
  assumes "accountTypeOfString ts = Some t"
  shows "((\<exists>s' out. main_step malloc_ok strdup_ok (CREATE ts name amount) s = Next s' out
                    \<and> DuplicateAccount name ts \<in> set out)
            \<longleftrightarrow> (\<exists>acc \<in> set (accountsHead s). Name acc = name \<and> accountType acc = t))
         \<and> ((\<exists>acc \<in> set (accountsHead s). Name acc = name \<and> accountType acc = t) \<longrightarrow>
              main_step malloc_ok strdup_ok (CREATE ts name amount) s
                = Next s [DuplicateAccount name ts])"
  using assms
  by (auto simp: checkDuplicateAccount_iff createAccount_def Let_def
      split: list.splits if_splits c_result.splits)


theorem create_duplicate_witness:
  "main_step True True (CREATE ''savings'' ''Carol'' (Finite 50))
     \<lparr>accountsHead =
        [\<lparr>AccountNumber = 101, Name = ''Bob'', accountType = CURRENT, Amount = Finite 200\<rparr>,
         \<lparr>AccountNumber = 100, Name = ''Carol'', accountType = SAVINGS, Amount = Finite 500\<rparr>],
      deletedAccountNumbersHead = [], globalNextAccountNumber = 102\<rparr>
   = Next
     \<lparr>accountsHead =
        [\<lparr>AccountNumber = 101, Name = ''Bob'', accountType = CURRENT, Amount = Finite 200\<rparr>,
         \<lparr>AccountNumber = 100, Name = ''Carol'', accountType = SAVINGS, Amount = Finite 500\<rparr>],
      deletedAccountNumbersHead = [], globalNextAccountNumber = 102\<rparr>
     [DuplicateAccount ''Carol'' ''savings'']"
  using create_duplicate
    [of "''savings''" SAVINGS True True "''Carol''" "Finite 50"
      "\<lparr>accountsHead =
        [\<lparr>AccountNumber = 101, Name = ''Bob'', accountType = CURRENT, Amount = Finite 200\<rparr>,
         \<lparr>AccountNumber = 100, Name = ''Carol'', accountType = SAVINGS, Amount = Finite 500\<rparr>],
      deletedAccountNumbersHead = [], globalNextAccountNumber = 102\<rparr>"]
  by (simp add: accountTypeOfString_def)

section \<open>Account numbers\<close>

lemma mset_sortDeletedAccountNumList: "mset (sortDeletedAccountNumList l) = mset l"
  by (simp add: sortDeletedAccountNumList_def mset_selectionLoop [OF swapAccountNum_swaps])

lemma sorted_sortDeletedAccountNumList: "sorted (sortDeletedAccountNumList l)"
proof (cases "l = [] \<or> tl l = []")
  case True
  then show ?thesis
    by (cases l) (auto simp: sortDeletedAccountNumList_def)
next
  case False
  then show ?thesis
    using sorted_selectionLoop [OF swapAccountNum_swaps, of "\<lambda>n. n" l]
    by (simp add: sortDeletedAccountNumList_def)
qed

lemma sortDeletedAccountNumList_Min:
  assumes "l \<noteq> []"
  shows "sortDeletedAccountNumList l = Min (set l) # tl (sortDeletedAccountNumList l)"
proof -
  have "set (sortDeletedAccountNumList l) = set l"
    using mset_sortDeletedAccountNumList [of l] by (rule mset_eq_setD)
  with assms obtain x xs where c: "sortDeletedAccountNumList l = x # xs"
    by (cases "sortDeletedAccountNumList l") auto
  with sorted_sortDeletedAccountNumList [of l] have "\<forall>y \<in> set xs. x \<le> y"
    by simp
  then have "Min (set (x # xs)) = x"
    by (auto intro!: Min_eqI)
  with c \<open>set (sortDeletedAccountNumList l) = set l\<close> show ?thesis
    by simp
qed

lemma mset_tl_sortDeletedAccountNumList:
  assumes "l \<noteq> []"
  shows "mset (tl (sortDeletedAccountNumList l)) = mset l - {#Min (set l)#}"
proof -
  have "mset l = mset (Min (set l) # tl (sortDeletedAccountNumList l))"
    using sortDeletedAccountNumList_Min [OF assms] mset_sortDeletedAccountNumList [of l]
    by simp
  then show ?thesis by simp
qed

lemma sorted_tl_sortDeletedAccountNumList: "sorted (tl (sortDeletedAccountNumList l))"
  using sorted_sortDeletedAccountNumList [of l] by (rule sorted_tl)

lemma create_recycles:
  assumes "accountTypeOfString ts = Some t"
    and "\<not> checkDuplicateAccount (accountsHead s) name t"
    and "deletedAccountNumbersHead s \<noteq> []"
  shows "main_step True True (CREATE ts name amount) s =
           Next (s\<lparr>accountsHead := accountsHead s @
                     [\<lparr>AccountNumber = Min (set (deletedAccountNumbersHead s)), Name = name,
                        accountType = t, Amount = amount\<rparr>],
                   deletedAccountNumbersHead :=
                     tl (sortDeletedAccountNumList (deletedAccountNumbersHead s))\<rparr>)
             [AccountCreated (Min (set (deletedAccountNumbersHead s))) name t amount]"
proof -
  from sortDeletedAccountNumList_Min [OF assms(3)]
  obtain rest where r: "sortDeletedAccountNumList (deletedAccountNumbersHead s)
      = Min (set (deletedAccountNumbersHead s)) # rest"
    by blast
  with assms(1,2) show ?thesis
    by (simp add: createAccount_def)
qed

lemma create_fresh:
  assumes "accountTypeOfString ts = Some t"
    and "\<not> checkDuplicateAccount (accountsHead s) name t"
    and "deletedAccountNumbersHead s = []"
    and "globalNextAccountNumber s < INT_MAX"
  shows "main_step True True (CREATE ts name amount) s =
           Next (s\<lparr>accountsHead := accountsHead s @
                     [\<lparr>AccountNumber = globalNextAccountNumber s, Name = name,
                        accountType = t, Amount = amount\<rparr>],
                   globalNextAccountNumber := globalNextAccountNumber s + 1\<rparr>)
             [AccountCreated (globalNextAccountNumber s) name t amount]"
  using assms by (simp add: createAccount_def sortDeletedAccountNumList_def)

lemma sortDeletedAccountNumList_two:
  assumes "X < Y" and "l = [X, Y] \<or> l = [Y, X]"
  shows "sortDeletedAccountNumList l = [X, Y]"
  using assms by (auto simp: sortDeletedAccountNumList_def swapAccountNum_def)


lemma checkDuplicateAccount_append:
  "checkDuplicateAccount (l @ [a]) name t \<longleftrightarrow>
     checkDuplicateAccount l name t \<or> (Name a = name \<and> accountType a = t)"
  by (auto simp: checkDuplicateAccount_iff)

lemma create_three_after_two_deleted:
  assumes "X < Y"
    and pool: "deletedAccountNumbersHead s = [X, Y] \<or> deletedAccountNumbersHead s = [Y, X]"
    and "globalNextAccountNumber s < INT_MAX"
    and t1: "accountTypeOfString ts1 = Some t1"
    and t2: "accountTypeOfString ts2 = Some t2"
    and t3: "accountTypeOfString ts3 = Some t3"
    and d1: "\<not> checkDuplicateAccount (accountsHead s) name1 t1"
    and d2: "\<not> checkDuplicateAccount (accountsHead s) name2 t2"
    and d3: "\<not> checkDuplicateAccount (accountsHead s) name3 t3"
    and "(name1, t1) \<noteq> (name2, t2)" and "(name1, t1) \<noteq> (name3, t3)"
    and "(name2, t2) \<noteq> (name3, t3)"
  shows "main_loop [(True, True, CREATE ts1 name1 amount1), (True, True, CREATE ts2 name2 amount2),
                    (True, True, CREATE ts3 name3 amount3)] s =
           Some (s\<lparr>accountsHead := accountsHead s @
                      [\<lparr>AccountNumber = X, Name = name1, accountType = t1, Amount = amount1\<rparr>,
                       \<lparr>AccountNumber = Y, Name = name2, accountType = t2, Amount = amount2\<rparr>,
                       \<lparr>AccountNumber = globalNextAccountNumber s, Name = name3,
                          accountType = t3, Amount = amount3\<rparr>],
                    deletedAccountNumbersHead := [],
                    globalNextAccountNumber := globalNextAccountNumber s + 1\<rparr>,
                 [AccountCreated X name1 t1 amount1, AccountCreated Y name2 t2 amount2,
                  AccountCreated (globalNextAccountNumber s) name3 t3 amount3])"
proof -
  let ?a1 = "\<lparr>AccountNumber = X, Name = name1, accountType = t1, Amount = amount1\<rparr>"
  let ?a2 = "\<lparr>AccountNumber = Y, Name = name2, accountType = t2, Amount = amount2\<rparr>"
  let ?s1 = "s\<lparr>accountsHead := accountsHead s @ [?a1], deletedAccountNumbersHead := [Y]\<rparr>"
  let ?s2 = "s\<lparr>accountsHead := accountsHead s @ [?a1, ?a2], deletedAccountNumbersHead := []\<rparr>"
  have sorted: "sortDeletedAccountNumList (deletedAccountNumbersHead s) = [X, Y]"
    using assms(1) pool by (rule sortDeletedAccountNumList_two)
  have min: "Min (set (deletedAccountNumbersHead s)) = X"
    using assms(1) pool by (auto simp: min_def)
  have ne: "deletedAccountNumbersHead s \<noteq> []"
    using pool by auto
  have step1: "main_step True True (CREATE ts1 name1 amount1) s =
      Next ?s1 [AccountCreated X name1 t1 amount1]"
    using create_recycles [OF t1 d1 ne, of amount1] by (simp add: sorted min)
  have dup2: "\<not> checkDuplicateAccount (accountsHead ?s1) name2 t2"
    using d2 assms(10) by (simp add: checkDuplicateAccount_append)
  have step2: "main_step True True (CREATE ts2 name2 amount2) ?s1 =
      Next ?s2 [AccountCreated Y name2 t2 amount2]"
    using create_recycles [OF t2 dup2, of amount2]
    by (simp add: sortDeletedAccountNumList_def)
  have dup3: "\<not> checkDuplicateAccount (accountsHead ?s2) name3 t3"
    using d3 assms(11,12) by (simp add: checkDuplicateAccount_iff)
  have step3: "main_step True True (CREATE ts3 name3 amount3) ?s2 =
      Next (s\<lparr>accountsHead := accountsHead s @
                      [?a1, ?a2,
                       \<lparr>AccountNumber = globalNextAccountNumber s, Name = name3,
                          accountType = t3, Amount = amount3\<rparr>],
                    deletedAccountNumbersHead := [],
                    globalNextAccountNumber := globalNextAccountNumber s + 1\<rparr>)
        [AccountCreated (globalNextAccountNumber s) name3 t3 amount3]"
    using create_fresh [OF t3 dup3, of amount3] assms(3) by simp
  show ?thesis
    by (simp only: main_loop.simps step1 step2 step3 step_result.case option.case prod.case
        append.simps)
qed

text \<open>
  Claim C1. A CREATE that goes through (valid type, no duplicate, allocations
  successful) takes the account number from the recycle list first: when the list is
  not empty the new account gets its smallest number, that number leaves the list and
  the counter stays as it is; when the list is empty (and the counter can still be
  incremented) the new account gets the counter's value and the counter goes up by one.
  In particular, when exactly two numbers \<open>X < Y\<close> wait in the recycle list, in either
  order, three CREATEs in a row give \<open>X\<close>, then \<open>Y\<close>, then the counter's value.
\<close>

theorem create_takes_from_pool_first:
  assumes "accountTypeOfString ts = Some t"
    and "\<not> checkDuplicateAccount (accountsHead s) name t"
  shows "(deletedAccountNumbersHead s \<noteq> [] \<longrightarrow>
            main_step True True (CREATE ts name amount) s =
              Next (s\<lparr>accountsHead := accountsHead s @
                        [\<lparr>AccountNumber = Min (set (deletedAccountNumbersHead s)), Name = name,
                           accountType = t, Amount = amount\<rparr>],
                      deletedAccountNumbersHead :=
                        tl (sortDeletedAccountNumList (deletedAccountNumbersHead s))\<rparr>)
                [AccountCreated (Min (set (deletedAccountNumbersHead s))) name t amount]
            \<and> mset (tl (sortDeletedAccountNumList (deletedAccountNumbersHead s)))
                = mset (deletedAccountNumbersHead s) - {#Min (set (deletedAccountNumbersHead s))#})
       \<and> (deletedAccountNumbersHead s = [] \<and> globalNextAccountNumber s < INT_MAX \<longrightarrow>
            main_step True True (CREATE ts name amount) s =
              Next (s\<lparr>accountsHead := accountsHead s @
                        [\<lparr>AccountNumber = globalNextAccountNumber s, Name = name,
                           accountType = t, Amount = amount\<rparr>],
                      globalNextAccountNumber := globalNextAccountNumber s + 1\<rparr>)
                [AccountCreated (globalNextAccountNumber s) name t amount])
       \<and> (X < Y
            \<and> (deletedAccountNumbersHead s = [X, Y] \<or> deletedAccountNumbersHead s = [Y, X])
            \<and> globalNextAccountNumber s < INT_MAX
            \<and> accountTypeOfString ts' = Some t' \<and> accountTypeOfString ts'' = Some t''
            \<and> \<not> checkDuplicateAccount (accountsHead s) name' t'
            \<and> \<not> checkDuplicateAccount (accountsHead s) name'' t''
            \<and> (name, t) \<noteq> (name', t') \<and> (name, t) \<noteq> (name'', t'') \<and> (name', t') \<noteq> (name'', t'')
          \<longrightarrow>
            main_loop [(True, True, CREATE ts name amount), (True, True, CREATE ts' name' amount'),
                       (True, True, CREATE ts'' name'' amount'')] s =
              Some (s\<lparr>accountsHead := accountsHead s @
                         [\<lparr>AccountNumber = X, Name = name, accountType = t, Amount = amount\<rparr>,
                          \<lparr>AccountNumber = Y, Name = name', accountType = t', Amount = amount'\<rparr>,
                          \<lparr>AccountNumber = globalNextAccountNumber s, Name = name'',
                             accountType = t'', Amount = amount''\<rparr>],
                       deletedAccountNumbersHead := [],
                       globalNextAccountNumber := globalNextAccountNumber s + 1\<rparr>,
                    [AccountCreated X name t amount, AccountCreated Y name' t' amount',
                     AccountCreated (globalNextAccountNumber s) name'' t'' amount'']))"
proof (intro conjI impI)
  assume "deletedAccountNumbersHead s \<noteq> []"
  then show "main_step True True (CREATE ts name amount) s =
              Next (s\<lparr>accountsHead := accountsHead s @
                        [\<lparr>AccountNumber = Min (set (deletedAccountNumbersHead s)), Name = name,
                           accountType = t, Amount = amount\<rparr>],
                      deletedAccountNumbersHead :=
                        tl (sortDeletedAccountNumList (deletedAccountNumbersHead s))\<rparr>)
                [AccountCreated (Min (set (deletedAccountNumbersHead s))) name t amount]"
    by (rule create_recycles [OF assms])
next
  assume "deletedAccountNumbersHead s \<noteq> []"
  then show "mset (tl (sortDeletedAccountNumList (deletedAccountNumbersHead s)))
      = mset (deletedAccountNumbersHead s) - {#Min (set (deletedAccountNumbersHead s))#}"
    by (rule mset_tl_sortDeletedAccountNumList)
next
  assume "deletedAccountNumbersHead s = [] \<and> globalNextAccountNumber s < INT_MAX"
  then show "main_step True True (CREATE ts name amount) s =
              Next (s\<lparr>accountsHead := accountsHead s @
                        [\<lparr>AccountNumber = globalNextAccountNumber s, Name = name,
                           accountType = t, Amount = amount\<rparr>],
                      globalNextAccountNumber := globalNextAccountNumber s + 1\<rparr>)
                [AccountCreated (globalNextAccountNumber s) name t amount]"
    using create_fresh [OF assms] by simp
next
  assume "X < Y
            \<and> (deletedAccountNumbersHead s = [X, Y] \<or> deletedAccountNumbersHead s = [Y, X])
            \<and> globalNextAccountNumber s < INT_MAX
            \<and> accountTypeOfString ts' = Some t' \<and> accountTypeOfString ts'' = Some t''
            \<and> \<not> checkDuplicateAccount (accountsHead s) name' t'
            \<and> \<not> checkDuplicateAccount (accountsHead s) name'' t''
            \<and> (name, t) \<noteq> (name', t') \<and> (name, t) \<noteq> (name'', t'') \<and> (name', t') \<noteq> (name'', t'')"
  then show "main_loop [(True, True, CREATE ts name amount), (True, True, CREATE ts' name' amount'),
                       (True, True, CREATE ts'' name'' amount'')] s =
              Some (s\<lparr>accountsHead := accountsHead s @
                         [\<lparr>AccountNumber = X, Name = name, accountType = t, Amount = amount\<rparr>,
                          \<lparr>AccountNumber = Y, Name = name', accountType = t', Amount = amount'\<rparr>,
                          \<lparr>AccountNumber = globalNextAccountNumber s, Name = name'',
                             accountType = t'', Amount = amount''\<rparr>],
                       deletedAccountNumbersHead := [],
                       globalNextAccountNumber := globalNextAccountNumber s + 1\<rparr>,
                    [AccountCreated X name t amount, AccountCreated Y name' t' amount',
                     AccountCreated (globalNextAccountNumber s) name'' t'' amount''])"
    using assms by (intro create_three_after_two_deleted) blast+
qed

theorem create_takes_from_pool_first_witness:
  "main_loop
     [(True, True, CREATE ''savings'' ''Alice'' (Finite 10)),
      (True, True, CREATE ''current'' ''Bob'' (Finite 20)),
      (True, True, CREATE ''savings'' ''Eve'' (Finite 30))]
     \<lparr>accountsHead =
        [\<lparr>AccountNumber = 102, Name = ''Dan'', accountType = CURRENT, Amount = Finite 30\<rparr>],
      deletedAccountNumbersHead = [101, 100], globalNextAccountNumber = 103\<rparr>
   = Some
     (\<lparr>accountsHead =
        [\<lparr>AccountNumber = 102, Name = ''Dan'', accountType = CURRENT, Amount = Finite 30\<rparr>,
         \<lparr>AccountNumber = 100, Name = ''Alice'', accountType = SAVINGS, Amount = Finite 10\<rparr>,
         \<lparr>AccountNumber = 101, Name = ''Bob'', accountType = CURRENT, Amount = Finite 20\<rparr>,
         \<lparr>AccountNumber = 103, Name = ''Eve'', accountType = SAVINGS, Amount = Finite 30\<rparr>],
      deletedAccountNumbersHead = [], globalNextAccountNumber = 104\<rparr>,
      [AccountCreated 100 ''Alice'' SAVINGS (Finite 10),
       AccountCreated 101 ''Bob'' CURRENT (Finite 20),
       AccountCreated 103 ''Eve'' SAVINGS (Finite 30)])"
proof -
  have ty: "accountTypeOfString ''savings'' = Some SAVINGS"
    by (simp add: accountTypeOfString_def)
  have nd: "\<not> checkDuplicateAccount (accountsHead
      \<lparr>accountsHead =
        [\<lparr>AccountNumber = 102, Name = ''Dan'', accountType = CURRENT, Amount = Finite 30\<rparr>],
      deletedAccountNumbersHead = [101, 100], globalNextAccountNumber = 103\<rparr>) ''Alice'' SAVINGS"
    by simp
  from create_takes_from_pool_first
    [OF ty nd, where X = 100 and Y = 101 and amount = "Finite 10"
       and ts' = "''current''" and t' = CURRENT and name' = "''Bob''" and amount' = "Finite 20"
       and ts'' = "''savings''" and t'' = SAVINGS and name'' = "''Eve''" and amount'' = "Finite 30",
     THEN conjunct2, THEN conjunct2]
  show ?thesis
    by (simp add: accountTypeOfString_def INT_MAX_def del: main_loop.simps main_step.simps)
qed

section \<open>The invariant of the account numbers\<close>

lemma created_numbers_append:
  "created_numbers (out @ out') = created_numbers out @ created_numbers out'"
  by (induction out rule: created_numbers.induct) simp_all

lemma created_numbers_DisplayRows:
  "created_numbers (map (\<lambda>n. DisplayRow (AccountNumber n) (accountType n) (Name n) (Amount n)) l) = []"
  by (induction l) simp_all

lemma created_numbers_LowBalanceRows:
  "created_numbers (map (\<lambda>n. LowBalanceRow (AccountNumber n) (Name n) (Amount n)) l) = []"
  by (induction l) simp_all

lemma created_numbers_display: "created_numbers (display l) = []"
  by (simp add: display_def created_numbers_append created_numbers_DisplayRows)

lemma created_numbers_lowBalanceAccounts: "created_numbers (lowBalanceAccounts l) = []"
  by (simp add: lowBalanceAccounts_def lowBalance_loop_filter created_numbers_append
      created_numbers_LowBalanceRows)

lemma transaction_loop_numbers:
  "map AccountNumber (fst (transaction_loop l N amount code)) = map AccountNumber l
   \<and> created_numbers (snd (transaction_loop l N amount code)) = []"
  by (induction l) (auto split: prod.splits)

lemma transaction_numbers:
  "map AccountNumber (fst (transaction l N amount code)) = map AccountNumber l
   \<and> created_numbers (snd (transaction l N amount code)) = []"
  by (simp add: transaction_def transaction_loop_numbers)

lemma deleteAccount_loop_numbers:
  "deleteAccount_loop l t name = (l', d, out) \<Longrightarrow>
     created_numbers out = []
     \<and> (mset (map AccountNumber l) = add_mset d (mset (map AccountNumber l')) \<or> (l' = l \<and> d = - 1))"
  by (induction l arbitrary: l') (auto split: if_splits prod.splits)

lemma deleteAccount_numbers:
  "deleteAccount l t name = (l', d, out) \<Longrightarrow>
     created_numbers out = []
     \<and> (mset (map AccountNumber l) = add_mset d (mset (map AccountNumber l')) \<or> (l' = l \<and> d = - 1))"
  by (auto simp: deleteAccount_def dest: deleteAccount_loop_numbers split: if_splits)


lemma numbers_sortAccountListByNumber:
  "mset (map AccountNumber (sortAccountListByNumber l)) = mset (map AccountNumber l)"
  by (simp add: mset_sortAccountListByNumber)

lemma createAccount_numbers:
  assumes "createAccount malloc_ok strdup_ok s t name amount = Returns (s', out)"
  shows "set (created_numbers out) \<subseteq> AccountNumber ` set (accountsHead s')
    \<and> ((globalNextAccountNumber s' = globalNextAccountNumber s
          \<and> mset (map AccountNumber (accountsHead s')) + mset (deletedAccountNumbersHead s')
              = mset (map AccountNumber (accountsHead s)) + mset (deletedAccountNumbersHead s)
          \<and> (deletedAccountNumbersHead s = [] \<longrightarrow> created_numbers out = []))
        \<or> (globalNextAccountNumber s' = globalNextAccountNumber s + 1
          \<and> deletedAccountNumbersHead s = [] \<and> deletedAccountNumbersHead s' = []
          \<and> map AccountNumber (accountsHead s')
              = map AccountNumber (accountsHead s) @ [globalNextAccountNumber s]
          \<and> created_numbers out = [globalNextAccountNumber s]))"
  using assms
  by (auto simp: createAccount_def Let_def split: if_splits list.splits)

lemma main_step_numbers:
  assumes "main_step malloc_ok strdup_ok cmd s = Next s' out"
  shows "set (created_numbers out) \<subseteq> AccountNumber ` set (accountsHead s')
    \<and> ((globalNextAccountNumber s' = globalNextAccountNumber s
          \<and> mset (map AccountNumber (accountsHead s')) + mset (deletedAccountNumbersHead s')
              \<subseteq># mset (map AccountNumber (accountsHead s)) + mset (deletedAccountNumbersHead s)
          \<and> (deletedAccountNumbersHead s = [] \<longrightarrow> created_numbers out = []))
        \<or> (globalNextAccountNumber s' = globalNextAccountNumber s + 1
          \<and> deletedAccountNumbersHead s = [] \<and> deletedAccountNumbersHead s' = []
          \<and> map AccountNumber (accountsHead s')
              = map AccountNumber (accountsHead s) @ [globalNextAccountNumber s]
          \<and> created_numbers out = [globalNextAccountNumber s]))"
proof (cases cmd)
  case EXIT
  with assms show ?thesis by simp
next
  case (CREATE ts name amount)
  show ?thesis
  proof (cases "accountTypeOfString ts")
    case None
    with assms CREATE show ?thesis by auto
  next
    case (Some t)
    show ?thesis
    proof (cases "checkDuplicateAccount (accountsHead s) name t")
      case True
      with assms CREATE Some show ?thesis by auto
    next
      case False
      let ?s1 = "s\<lparr>deletedAccountNumbersHead :=
                         sortDeletedAccountNumList (deletedAccountNumbersHead s)\<rparr>"
      from assms CREATE Some False
      have c: "createAccount malloc_ok strdup_ok ?s1 t name amount = Returns (s', out)"
        by (auto split: c_result.splits)
      have e: "deletedAccountNumbersHead ?s1 = [] \<longleftrightarrow> deletedAccountNumbersHead s = []"
        using mset_sortDeletedAccountNumList [of "deletedAccountNumbersHead s"]
        by (metis bank_state.select_convs(2) bank_state.surjective bank_state.update_convs(2)
            mset_zero_iff)
      from createAccount_numbers [OF c] e show ?thesis
        by (auto simp: mset_sortDeletedAccountNumList)
    qed
  qed
next
  case (DELETE ts name)
  show ?thesis
  proof (cases "accountTypeOfString ts")
    case None
    with assms DELETE show ?thesis by auto
  next
    case (Some t)
    obtain l' d msgs where del: "deleteAccount (accountsHead s) t name = (l', d, msgs)"
      by (cases "deleteAccount (accountsHead s) t name") auto
    from deleteAccount_numbers [OF del] assms DELETE Some del show ?thesis
      by (auto simp: addDeletedAccountNum_def created_numbers_append split: if_splits)
  qed
next
  case DISPLAY
  with assms show ?thesis
    by (auto simp: Let_def created_numbers_display numbers_sortAccountListByNumber
        simp del: mset_map)
next
  case LOWBALANCE
  with assms show ?thesis
    by (auto simp: Let_def created_numbers_lowBalanceAccounts numbers_sortAccountListByNumber
        simp del: mset_map)
next
  case (TRANSACTION N amount code)
  obtain l' msgs where tr: "transaction (accountsHead s) N amount code = (l', msgs)"
    by (cases "transaction (accountsHead s) N amount code") auto
  with transaction_numbers [of "accountsHead s" N amount code] assms TRANSACTION
  show ?thesis by (auto simp del: mset_map)
next
  case (OTHER x)
  with assms show ?thesis by auto
qed

lemma main_step_counter:
  assumes "main_step malloc_ok strdup_ok cmd s = Next s' out"
  shows "if deletedAccountNumbersHead s = [] \<and> created_numbers out \<noteq> []
         then globalNextAccountNumber s' = globalNextAccountNumber s + 1
              \<and> created_numbers out = [globalNextAccountNumber s]
         else globalNextAccountNumber s' = globalNextAccountNumber s"
  using main_step_numbers [OF assms] by auto

lemma main_loop_counter:
  "main_loop inputs s = Some (s', out) \<Longrightarrow>
     globalNextAccountNumber s \<le> globalNextAccountNumber s'"
proof (induction inputs arbitrary: s out)
  case Nil
  then show ?case by simp
next
  case (Cons i inputs)
  obtain malloc_ok strdup_ok cmd where i: "i = (malloc_ok, strdup_ok, cmd)"
    by (cases i) auto
  from Cons.prems i obtain s1 out1 out2
    where step: "main_step malloc_ok strdup_ok cmd s = Next s1 out1"
      and rest: "main_loop inputs s1 = Some (s', out2)"
    by (auto split: step_result.splits option.splits)
  from main_step_numbers [OF step]
  have "globalNextAccountNumber s \<le> globalNextAccountNumber s1" by auto
  with Cons.IH [OF rest] show ?case by simp
qed

lemma distinct_mset_subseteq:
  assumes "mset xs \<subseteq># mset ys" and "distinct ys"
  shows "distinct xs"
proof -
  have "count (mset xs) a = (if a \<in> set xs then 1 else 0)" for a
  proof (cases "a \<in> set xs")
    case True
    have le: "count (mset xs) a \<le> count (mset ys) a"
      using assms(1) by (rule mset_subset_eq_count)
    have one: "count (mset ys) a \<le> 1"
      using assms(2) by (simp add: distinct_count_atmost_1)
    have pos: "0 < count (mset xs) a"
      using True by simp
    from le one pos have "count (mset xs) a = 1"
      by linarith
    with True show ?thesis
      by (simp only: if_True)
  next
    case False
    then show ?thesis
      by (simp add: count_eq_zero_iff)
  qed
  then show ?thesis
    by (simp add: distinct_count_atmost_1)
qed

lemma main_step_invariant:
  assumes step: "main_step malloc_ok strdup_ok cmd s = Next s' out"
    and d: "distinct (map AccountNumber (accountsHead s) @ deletedAccountNumbersHead s)"
    and b: "\<forall>n \<in> set (map AccountNumber (accountsHead s) @ deletedAccountNumbersHead s).
              100 \<le> n \<and> n < globalNextAccountNumber s"
    and c: "100 \<le> globalNextAccountNumber s"
  shows "distinct (map AccountNumber (accountsHead s') @ deletedAccountNumbersHead s')
     \<and> (\<forall>n \<in> set (map AccountNumber (accountsHead s') @ deletedAccountNumbersHead s'
                  @ created_numbers out).
          100 \<le> n \<and> n < globalNextAccountNumber s')
     \<and> 100 \<le> globalNextAccountNumber s'"
proof -
  let ?old = "map AccountNumber (accountsHead s) @ deletedAccountNumbersHead s"
  let ?new = "map AccountNumber (accountsHead s') @ deletedAccountNumbersHead s'"
  from main_step_numbers [OF step]
  have created: "set (created_numbers out) \<subseteq> set ?new"
    by auto
  from main_step_numbers [OF step]
  consider
    (same) "globalNextAccountNumber s' = globalNextAccountNumber s" "mset ?new \<subseteq># mset ?old"
  | (fresh) "globalNextAccountNumber s' = globalNextAccountNumber s + 1"
      "?new = ?old @ [globalNextAccountNumber s]"
    by (auto simp del: mset_map)
  then have "distinct ?new
      \<and> (\<forall>n \<in> set ?new. 100 \<le> n \<and> n < globalNextAccountNumber s')
      \<and> 100 \<le> globalNextAccountNumber s'"
  proof cases
    case same
    from same(2) d have "distinct ?new"
      by (rule distinct_mset_subseteq)
    moreover from same(2) have "set ?new \<subseteq> set ?old"
      by (metis set_mset_mono set_mset_mset)
    ultimately show ?thesis
      using b c same(1) by auto
  next
    case fresh
    from b have "globalNextAccountNumber s \<notin> set ?old"
      by auto
    with d fresh(2) have dist: "distinct ?new"
      by simp
    have "set ?new = insert (globalNextAccountNumber s) (set ?old)"
      unfolding fresh(2) by simp
    moreover from b have "\<forall>n \<in> set ?old. 100 \<le> n \<and> n < globalNextAccountNumber s + 1"
      by (simp add: less_imp_le)
    ultimately have "\<forall>n \<in> set ?new. 100 \<le> n \<and> n < globalNextAccountNumber s'"
      using c by (simp only: fresh(1) ball_simps) simp
    with dist c fresh(1) show ?thesis
      by simp
  qed
  with created show ?thesis
    by auto
qed

lemma main_loop_invariant:
  assumes "main_loop inputs s = Some (s', out)"
    and "distinct (map AccountNumber (accountsHead s) @ deletedAccountNumbersHead s)"
    and "\<forall>n \<in> set (map AccountNumber (accountsHead s) @ deletedAccountNumbersHead s).
              100 \<le> n \<and> n < globalNextAccountNumber s"
    and "100 \<le> globalNextAccountNumber s"
  shows "distinct (map AccountNumber (accountsHead s') @ deletedAccountNumbersHead s')
     \<and> (\<forall>n \<in> set (map AccountNumber (accountsHead s') @ deletedAccountNumbersHead s'
                  @ created_numbers out).
          100 \<le> n \<and> n < globalNextAccountNumber s')
     \<and> 100 \<le> globalNextAccountNumber s'"
  using assms
proof (induction inputs arbitrary: s out)
  case Nil
  then show ?case by simp
next
  case (Cons i inputs)
  obtain malloc_ok strdup_ok cmd where i: "i = (malloc_ok, strdup_ok, cmd)"
    by (cases i) auto
  from Cons.prems(1) i obtain s1 out1 out2
    where step: "main_step malloc_ok strdup_ok cmd s = Next s1 out1"
      and rest: "main_loop inputs s1 = Some (s', out2)"
      and out: "out = out1 @ out2"
    by (auto split: step_result.splits option.splits)
  note inv1 = main_step_invariant [OF step Cons.prems(2,3,4)]
  from inv1 have d1: "distinct (map AccountNumber (accountsHead s1) @ deletedAccountNumbersHead s1)"
    and b1: "\<forall>n \<in> set (map AccountNumber (accountsHead s1) @ deletedAccountNumbersHead s1).
              100 \<le> n \<and> n < globalNextAccountNumber s1"
    and c1: "100 \<le> globalNextAccountNumber s1"
    by auto
  note inv' = Cons.IH [OF rest d1 b1 c1]
  from inv1 have "\<forall>n \<in> set (created_numbers out1). 100 \<le> n \<and> n < globalNextAccountNumber s1"
    by auto
  with main_loop_counter [OF rest]
  have "\<forall>n \<in> set (created_numbers out1). 100 \<le> n \<and> n < globalNextAccountNumber s'"
    by auto
  with inv' out show ?case
    by (auto simp: created_numbers_append)
qed

text \<open>
  Claim C2. In every state the loop reaches from the initial state (no account, empty
  recycle list, counter 100), whatever the commands and the allocation outcomes: the
  numbers of the live accounts are pairwise distinct, and distinct from the numbers
  waiting in the recycle list; every number an account holds, every number in the
  recycle list and every number the program has reported as created so far lies
  between 100 and the counter, the counter excluded; the counter never goes down in any
  continuation; and one iteration raises it by exactly one when it gives an account a
  number while the recycle list is empty (the number given is the counter's value
  before), and leaves it as it is in every other case.
\<close>

theorem account_numbers_invariant:
  assumes "main_loop inputs initial_state = Some (s, out)"
  shows "distinct (map AccountNumber (accountsHead s))
     \<and> distinct (map AccountNumber (accountsHead s) @ deletedAccountNumbersHead s)
     \<and> (\<forall>n \<in> set (map AccountNumber (accountsHead s) @ deletedAccountNumbersHead s
                  @ created_numbers out).
          100 \<le> n \<and> n < globalNextAccountNumber s)
     \<and> 100 \<le> globalNextAccountNumber s
     \<and> (\<forall>more s' out'. main_loop more s = Some (s', out') \<longrightarrow>
          globalNextAccountNumber s \<le> globalNextAccountNumber s')
     \<and> (\<forall>malloc_ok strdup_ok cmd s' out'.
          main_step malloc_ok strdup_ok cmd s = Next s' out' \<longrightarrow>
            (if deletedAccountNumbersHead s = [] \<and> created_numbers out' \<noteq> []
             then globalNextAccountNumber s' = globalNextAccountNumber s + 1
                  \<and> created_numbers out' = [globalNextAccountNumber s]
             else globalNextAccountNumber s' = globalNextAccountNumber s))"
proof -
  have "distinct (map AccountNumber (accountsHead s) @ deletedAccountNumbersHead s)
     \<and> (\<forall>n \<in> set (map AccountNumber (accountsHead s) @ deletedAccountNumbersHead s
                  @ created_numbers out).
          100 \<le> n \<and> n < globalNextAccountNumber s)
     \<and> 100 \<le> globalNextAccountNumber s"
    by (rule main_loop_invariant [OF assms]) (simp_all add: initial_state_def)
  moreover have "\<forall>more s' out'. main_loop more s = Some (s', out') \<longrightarrow>
          globalNextAccountNumber s \<le> globalNextAccountNumber s'"
    using main_loop_counter by blast
  moreover have "\<forall>malloc_ok strdup_ok cmd s' out'.
          main_step malloc_ok strdup_ok cmd s = Next s' out' \<longrightarrow>
            (if deletedAccountNumbersHead s = [] \<and> created_numbers out' \<noteq> []
             then globalNextAccountNumber s' = globalNextAccountNumber s + 1
                  \<and> created_numbers out' = [globalNextAccountNumber s]
             else globalNextAccountNumber s' = globalNextAccountNumber s)"
    using main_step_counter by blast
  ultimately show ?thesis
    by simp
qed


theorem account_numbers_invariant_witness:
  "main_loop
     [(True, True, CREATE ''savings'' ''Alice'' (Finite 500)),
      (True, True, CREATE ''current'' ''Bob'' (Finite 200)),
      (True, True, DELETE ''savings'' ''Alice''),
      (True, True, CREATE ''current'' ''Carol'' (Finite 300))]
     initial_state
   = Some
     (\<lparr>accountsHead =
        [\<lparr>AccountNumber = 101, Name = ''Bob'', accountType = CURRENT, Amount = Finite 200\<rparr>,
         \<lparr>AccountNumber = 100, Name = ''Carol'', accountType = CURRENT, Amount = Finite 300\<rparr>],
      deletedAccountNumbersHead = [], globalNextAccountNumber = 102\<rparr>,
      [AccountCreated 100 ''Alice'' SAVINGS (Finite 500),
       AccountCreated 101 ''Bob'' CURRENT (Finite 200),
       AccountDeleted 100,
       AccountCreated 100 ''Carol'' CURRENT (Finite 300)])
   \<and> distinct (map AccountNumber
       [\<lparr>AccountNumber = 101, Name = ''Bob'', accountType = CURRENT, Amount = Finite 200\<rparr>,
        \<lparr>AccountNumber = 100, Name = ''Carol'', accountType = CURRENT, Amount = Finite 300\<rparr>])"
proof -
  have run: "main_loop
     [(True, True, CREATE ''savings'' ''Alice'' (Finite 500)),
      (True, True, CREATE ''current'' ''Bob'' (Finite 200)),
      (True, True, DELETE ''savings'' ''Alice''),
      (True, True, CREATE ''current'' ''Carol'' (Finite 300))]
     initial_state
   = Some
     (\<lparr>accountsHead =
        [\<lparr>AccountNumber = 101, Name = ''Bob'', accountType = CURRENT, Amount = Finite 200\<rparr>,
         \<lparr>AccountNumber = 100, Name = ''Carol'', accountType = CURRENT, Amount = Finite 300\<rparr>],
      deletedAccountNumbersHead = [], globalNextAccountNumber = 102\<rparr>,
      [AccountCreated 100 ''Alice'' SAVINGS (Finite 500),
       AccountCreated 101 ''Bob'' CURRENT (Finite 200),
       AccountDeleted 100,
       AccountCreated 100 ''Carol'' CURRENT (Finite 300)])"
    by (simp add: initial_state_def accountTypeOfString_def createAccount_def INT_MAX_def
        sortDeletedAccountNumList_def deleteAccount_def addDeletedAccountNum_def)
  from account_numbers_invariant [OF run] run show ?thesis
    by simp
qed

end
